theory Spec2Isabelle
  imports Main "HOL-Library.Word"
begin

section \<open>The socket descriptor table of net-sockets.c\<close>

text \<open>
  A shallow embedding of \<^verbatim>\<open>nuttx/net/net-sockets.c\<close>. Every C function is a function
  on an explicit kernel state. The state holds the heap of socket lists, the socket list
  pointer of the calling task, the outcomes of the calls to \<^verbatim>\<open>sem_wait\<close> still to come,
  \<^verbatim>\<open>errno\<close>, and the log of the calls made to the collaborators of the file (semaphores,
  interrupt masking, the memory allocator).

  The reference count of a list is a 16-bit field, and its increment and decrement wrap
  around. The other C \<^verbatim>\<open>int\<close> values are mathematical integers: the count of a slot is
  only ever set to 1 or decremented when above 1, and the descriptor base is subtracted
  once from a descriptor.
\<close>

subsection \<open>Configuration and constants\<close>

text \<open>
  The two macros that size the table come from the configuration headers, so they are
  parameters of every operation:
  \<^verbatim>\<open>CONFIG_NSOCKET_DESCRIPTORS\<close>, the capacity of a socket list, and
  \<^verbatim>\<open>__SOCKFD_OFFSET\<close>, the base of the socket descriptor numbers.
\<close>

record config =
  CONFIG_NSOCKET_DESCRIPTORS :: nat
  SOCKFD_OFFSET :: int

text \<open>The return codes \<^verbatim>\<open>OK\<close> and \<^verbatim>\<open>ERROR\<close> of \<^verbatim>\<open>sys/types.h\<close> and the
  error number \<^verbatim>\<open>EINTR\<close> of \<^verbatim>\<open>errno.h\<close>.\<close>

definition OK :: int where
  "OK = 0"

definition ERROR :: int where
  "ERROR = - 1"

definition EINTR :: int where
  "EINTR = 4"

subsection \<open>Data\<close>

type_synonym addr = nat

text \<open>
  \<^verbatim>\<open>struct socket\<close>: the reference count \<^verbatim>\<open>s_crefs\<close> and, modelled from the spec
  (the structure is declared in \<^verbatim>\<open>nuttx/net.h\<close>), the opaque per-connection state, one
  value whose all-zero image is \<open>0\<close>.
\<close>

record socket =
  s_crefs :: int
  s_conn :: nat

text \<open>What \<^verbatim>\<open>memset(psock, 0, sizeof(struct socket))\<close> leaves in a slot.\<close>

definition zero_socket :: socket where
  "zero_socket = \<lparr>s_crefs = 0, s_conn = 0\<rparr>"

text \<open>
  \<^verbatim>\<open>struct socketlist\<close>: the reference count of the list, an \<^verbatim>\<open>int16_t\<close> in
  \<^verbatim>\<open>nuttx/net.h\<close>, read as a signed value by \<open>sint\<close>, and the array of slots. The
  semaphore \<^verbatim>\<open>sl_sem\<close> is opaque; it is identified with the address of its list and
  only operated through the semaphore calls below.
\<close>

record socketlist =
  sl_crefs :: "16 word"
  sl_sockets :: "socket list"

text \<open>A \<^verbatim>\<open>struct socket *\<close> into a list: the address of the list and the index.\<close>

type_synonym psock = "addr \<times> nat"

text \<open>The calls to collaborators, in the order they are made.\<close>

datatype call =
    KZMALLOC
  | SCHED_FREE addr
  | SEM_INIT addr int nat
  | SEM_WAIT addr
  | SEM_POST addr
  | SEM_DESTROY addr
  | IRQSAVE
  | IRQRESTORE

text \<open>What one call of \<^verbatim>\<open>sem_wait\<close> returns: 0, or nonzero with an error number.\<close>

datatype sem_result = SemOK | SemErr int

record kernel =
  heap :: "addr \<rightharpoonup> socketlist"
  mem_pool :: "addr list"
  task_sockets :: "addr option"
  sem_script :: "nat \<Rightarrow> sem_result"
  sem_waits :: nat
  errno :: int
  calls :: "call list"

text \<open>
  A run of the C code can fail in two ways that are not return values: the \<^verbatim>\<open>ASSERT\<close>
  of \<^verbatim>\<open>_net_semtake\<close>, and an access through a pointer to a list that is not (or no
  longer) allocated.
\<close>

datatype fault = AssertFailed | BadPointer

subsection \<open>Collaborators\<close>

definition log_call :: "call \<Rightarrow> kernel \<Rightarrow> kernel" where
  "log_call c k = k\<lparr>calls := calls k @ [c]\<rparr>"

text \<open>Modelled from the spec: \<^verbatim>\<open>sched_getsockets\<close>, the per-task lookup returning the
  caller's current socket list, or none if the calling context has none.\<close>

definition sched_getsockets :: "kernel \<Rightarrow> addr option" where
  "sched_getsockets k = task_sockets k"

text \<open>Modelled from the spec: \<^verbatim>\<open>kzmalloc\<close>, the zero-initialised allocation of a
  list-sized block. It fails when the allocator has no block left.\<close>

definition zero_socketlist :: "config \<Rightarrow> socketlist" where
  "zero_socketlist cfg =
     \<lparr>sl_crefs = 0, sl_sockets = replicate (CONFIG_NSOCKET_DESCRIPTORS cfg) zero_socket\<rparr>"

definition kzmalloc :: "config \<Rightarrow> kernel \<Rightarrow> addr option \<times> kernel" where
  "kzmalloc cfg k =
     (case mem_pool k of
        [] \<Rightarrow> (None, log_call KZMALLOC k)
      | a # rest \<Rightarrow>
          (Some a, (log_call KZMALLOC k)\<lparr>heap := (heap k)(a \<mapsto> zero_socketlist cfg),
                                         mem_pool := rest\<rparr>))"

text \<open>Modelled from the spec: \<^verbatim>\<open>sched_free\<close>, the deallocation of a list.\<close>

definition sched_free :: "addr \<Rightarrow> kernel \<Rightarrow> kernel" where
  "sched_free a k = (log_call (SCHED_FREE a) k)\<lparr>heap := (heap k)(a := None)\<rparr>"

text \<open>Modelled from the spec: the mutex primitive (\<^verbatim>\<open>sem_init\<close>, \<^verbatim>\<open>sem_wait\<close>,
  \<^verbatim>\<open>sem_post\<close>, \<^verbatim>\<open>sem_destroy\<close>). A wait either acquires the mutex and returns 0, or
  returns nonzero and sets \<^verbatim>\<open>errno\<close>; which of the two is the environment's choice,
  read from the script of the state.\<close>

definition sem_init :: "addr \<Rightarrow> int \<Rightarrow> nat \<Rightarrow> kernel \<Rightarrow> kernel" where
  "sem_init s pshared v k = log_call (SEM_INIT s pshared v) k"

definition sem_wait :: "addr \<Rightarrow> kernel \<Rightarrow> int \<times> kernel" where
  "sem_wait s k =
     (case sem_script k (sem_waits k) of
        SemOK \<Rightarrow> (0, (log_call (SEM_WAIT s) k)\<lparr>sem_waits := Suc (sem_waits k)\<rparr>)
      | SemErr e \<Rightarrow>
          (- 1, (log_call (SEM_WAIT s) k)\<lparr>sem_waits := Suc (sem_waits k), errno := e\<rparr>))"

definition sem_post :: "addr \<Rightarrow> kernel \<Rightarrow> kernel" where
  "sem_post s k = log_call (SEM_POST s) k"

definition sem_destroy :: "addr \<Rightarrow> kernel \<Rightarrow> kernel" where
  "sem_destroy s k = log_call (SEM_DESTROY s) k"

text \<open>Modelled from the spec: \<^verbatim>\<open>irqsave\<close> and \<^verbatim>\<open>irqrestore\<close>, the non-blocking
  critical section around the reference count of a list.\<close>

definition irqsave :: "kernel \<Rightarrow> kernel" where
  "irqsave k = log_call IRQSAVE k"

definition irqrestore :: "kernel \<Rightarrow> kernel" where
  "irqrestore k = log_call IRQRESTORE k"

subsection \<open>Access to a slot through a pointer\<close>

definition read_sock :: "psock \<Rightarrow> kernel \<Rightarrow> socket option" where
  "read_sock p k =
     (case heap k (fst p) of None \<Rightarrow> None | Some sl \<Rightarrow> Some (sl_sockets sl ! snd p))"

definition update_sock :: "psock \<Rightarrow> (socket \<Rightarrow> socket) \<Rightarrow> kernel \<Rightarrow> kernel" where
  "update_sock p f k =
     (case heap k (fst p) of
        None \<Rightarrow> k
      | Some sl \<Rightarrow>
          k\<lparr>heap := (heap k)(fst p \<mapsto>
                 sl\<lparr>sl_sockets := (sl_sockets sl)[snd p := f (sl_sockets sl ! snd p)]\<rparr>)\<rparr>)"

subsection \<open>The mutex of a list\<close>

text \<open>\<^verbatim>\<open>_net_semtake\<close>: wait until the semaphore is taken. The loop runs as long as
  \<^verbatim>\<open>sem_wait\<close> fails with \<^verbatim>\<open>EINTR\<close>, so it need not return: \<open>None\<close> is the run that
  never does.\<close>

partial_function (option) net_semtake :: "addr \<Rightarrow> kernel \<Rightarrow> (fault + kernel) option" where
  "net_semtake list k =
     (if fst (sem_wait list k) \<noteq> 0
      then (if errno (snd (sem_wait list k)) = EINTR
            then net_semtake list (snd (sem_wait list k))
            else Some (Inl AssertFailed))
      else Some (Inr (snd (sem_wait list k))))"

declare net_semtake.simps [code]

definition net_semgive :: "addr \<Rightarrow> kernel \<Rightarrow> kernel" where
  "net_semgive list k = sem_post list k"

subsection \<open>The life cycle of a list\<close>

text \<open>\<^verbatim>\<open>net_alloclist\<close>\<close>

definition net_alloclist :: "config \<Rightarrow> kernel \<Rightarrow> addr option \<times> kernel" where
  "net_alloclist cfg k =
     (case kzmalloc cfg k of
        (None, k1) \<Rightarrow> (None, k1)
      | (Some list, k1) \<Rightarrow>
          (Some list,
           sem_init list 0 1
             (k1\<lparr>heap := (heap k1)(list := map_option (\<lambda>sl. sl\<lparr>sl_crefs := 1\<rparr>) (heap k1 list))\<rparr>)))"

text \<open>\<^verbatim>\<open>net_addreflist\<close>\<close>

definition net_addreflist :: "addr option \<Rightarrow> kernel \<Rightarrow> fault + int \<times> kernel" where
  "net_addreflist list k =
     (case list of
        None \<Rightarrow> Inr (OK, k)
      | Some a \<Rightarrow>
          (case heap (irqsave k) a of
             None \<Rightarrow> Inl BadPointer
           | Some sl \<Rightarrow>
               Inr (OK, irqrestore
                          ((irqsave k)\<lparr>heap := (heap (irqsave k))(a \<mapsto> sl\<lparr>sl_crefs := sl_crefs sl + 1\<rparr>)\<rparr>))))"

text \<open>\<^verbatim>\<open>net_releaselist\<close>\<close>

definition net_releaselist :: "addr option \<Rightarrow> kernel \<Rightarrow> fault + int \<times> kernel" where
  "net_releaselist list k =
     (case list of
        None \<Rightarrow> Inr (OK, k)
      | Some a \<Rightarrow>
          (case heap (irqsave k) a of
             None \<Rightarrow> Inl BadPointer
           | Some sl \<Rightarrow>
               (let crefs = sint (sl_crefs sl - 1);
                    k1 = irqrestore
                           ((irqsave k)\<lparr>heap := (heap (irqsave k))
                                          (a \<mapsto> sl\<lparr>sl_crefs := sl_crefs sl - 1\<rparr>)\<rparr>)
                in if crefs \<le> 0
                   then Inr (OK, sched_free a (sem_destroy a k1))
                   else Inr (OK, k1))))"

subsection \<open>Descriptors\<close>

text \<open>\<^verbatim>\<open>sockfd_socket\<close>\<close>

definition sockfd_socket :: "config \<Rightarrow> int \<Rightarrow> kernel \<Rightarrow> psock option \<times> kernel" where
  "sockfd_socket cfg sockfd k =
     (let ndx = sockfd - SOCKFD_OFFSET cfg
      in if ndx \<ge> 0 \<and> ndx < int (CONFIG_NSOCKET_DESCRIPTORS cfg)
         then (case sched_getsockets k of
                 Some list \<Rightarrow> (Some (list, nat ndx), k)
               | None \<Rightarrow> (None, k))
         else (None, k))"

text \<open>The \<^verbatim>\<open>for\<close> loop of \<^verbatim>\<open>sockfd_allocate\<close>, from index \<open>i\<close> on. The result is the
  descriptor returned from inside the loop, or \<open>None\<close> when the loop runs to its end.\<close>

function sockfd_allocate_scan ::
  "config \<Rightarrow> addr \<Rightarrow> nat \<Rightarrow> kernel \<Rightarrow> fault + int option \<times> kernel" where
  "sockfd_allocate_scan cfg list i k =
     (if i < CONFIG_NSOCKET_DESCRIPTORS cfg
      then (case read_sock (list, i) k of
              None \<Rightarrow> Inl BadPointer
            | Some s \<Rightarrow>
                if s_crefs s = 0
                then (let k1 = update_sock (list, i) (\<lambda>_. zero_socket) k;
                          k2 = update_sock (list, i) (\<lambda>s. s\<lparr>s_crefs := 1\<rparr>) k1;
                          k3 = net_semgive list k2
                      in Inr (Some (int i + SOCKFD_OFFSET cfg), k3))
                else sockfd_allocate_scan cfg list (Suc i) k)
      else Inr (None, k))"
  by pat_completeness auto
termination
  by (relation "measure (\<lambda>(cfg, list, i, k). CONFIG_NSOCKET_DESCRIPTORS cfg - i)") auto

text \<open>\<^verbatim>\<open>sockfd_allocate\<close>\<close>

definition sockfd_allocate :: "config \<Rightarrow> kernel \<Rightarrow> (fault + int \<times> kernel) option" where
  "sockfd_allocate cfg k =
     (case sched_getsockets k of
        None \<Rightarrow> Some (Inr (ERROR, k))
      | Some list \<Rightarrow>
          (case net_semtake list k of
             None \<Rightarrow> None
           | Some (Inl f) \<Rightarrow> Some (Inl f)
           | Some (Inr k1) \<Rightarrow>
               (case sockfd_allocate_scan cfg list 0 k1 of
                  Inl f \<Rightarrow> Some (Inl f)
                | Inr (Some fd, k2) \<Rightarrow> Some (Inr (fd, k2))
                | Inr (None, k2) \<Rightarrow> Some (Inr (ERROR, net_semgive list k2)))))"

text \<open>\<^verbatim>\<open>sockfd_release\<close>\<close>

definition sockfd_release :: "config \<Rightarrow> int \<Rightarrow> kernel \<Rightarrow> (fault + kernel) option" where
  "sockfd_release cfg sockfd k =
     (case sockfd_socket cfg sockfd k of
        (None, k0) \<Rightarrow> Some (Inr k0)
      | (Some p, k0) \<Rightarrow>
          (case sched_getsockets k0 of
             None \<Rightarrow> Some (Inr k0)
           | Some list \<Rightarrow>
               (case net_semtake list k0 of
                  None \<Rightarrow> None
                | Some (Inl f) \<Rightarrow> Some (Inl f)
                | Some (Inr k1) \<Rightarrow>
                    (case read_sock p k1 of
                       None \<Rightarrow> Some (Inl BadPointer)
                     | Some s \<Rightarrow>
                         if s_crefs s > 1
                         then Some (Inr (net_semgive list
                                           (update_sock p (\<lambda>s. s\<lparr>s_crefs := s_crefs s - 1\<rparr>) k1)))
                         else Some (Inr (net_semgive list (update_sock p (\<lambda>_. zero_socket) k1)))))))"

subsection \<open>Sequences of operations\<close>

text \<open>The environment of a wait loop: the semaphore call number \<open>i\<close> and the \<open>n - 1\<close>
  calls after it are interrupted by a signal, and the next one takes the semaphore.\<close>

fun acquires_after :: "nat \<Rightarrow> (nat \<Rightarrow> sem_result) \<Rightarrow> nat \<Rightarrow> bool" where
  "acquires_after 0 scr i \<longleftrightarrow> scr i = SemOK"
| "acquires_after (Suc n) scr i \<longleftrightarrow> scr i = SemErr EINTR \<and> acquires_after n scr (Suc i)"

text \<open>A run of allocate and release calls by the task, and what each call returned.\<close>

datatype sockop = Allocate | Release int

datatype event = Allocated int | Released int

fun run_op :: "config \<Rightarrow> sockop \<Rightarrow> kernel \<Rightarrow> (fault + event \<times> kernel) option" where
  "run_op cfg Allocate k =
     (case sockfd_allocate cfg k of
        None \<Rightarrow> None
      | Some (Inl f) \<Rightarrow> Some (Inl f)
      | Some (Inr (fd, k')) \<Rightarrow> Some (Inr (Allocated fd, k')))"
| "run_op cfg (Release fd) k =
     (case sockfd_release cfg fd k of
        None \<Rightarrow> None
      | Some (Inl f) \<Rightarrow> Some (Inl f)
      | Some (Inr k') \<Rightarrow> Some (Inr (Released fd, k')))"

fun run_ops :: "config \<Rightarrow> sockop list \<Rightarrow> kernel \<Rightarrow> (fault + event list \<times> kernel) option" where
  "run_ops cfg [] k = Some (Inr ([], k))"
| "run_ops cfg (x # xs) k =
     (case run_op cfg x k of
        None \<Rightarrow> None
      | Some (Inl f) \<Rightarrow> Some (Inl f)
      | Some (Inr (e, k1)) \<Rightarrow>
          (case run_ops cfg xs k1 of
             None \<Rightarrow> None
           | Some (Inl f) \<Rightarrow> Some (Inl f)
           | Some (Inr (es, k2)) \<Rightarrow> Some (Inr (e # es, k2))))"

text \<open>The task has a socket list, and the list has as many slots as the table.\<close>

definition table_ok :: "config \<Rightarrow> addr \<Rightarrow> kernel \<Rightarrow> bool" where
  "table_ok cfg a k \<longleftrightarrow>
     task_sockets k = Some a \<and>
     (case heap k a of
        None \<Rightarrow> False
      | Some sl \<Rightarrow> length (sl_sockets sl) = CONFIG_NSOCKET_DESCRIPTORS cfg)"

text \<open>The reference count of slot \<open>i\<close> of the list at \<open>a\<close>.\<close>

definition crefs_at :: "addr \<Rightarrow> nat \<Rightarrow> kernel \<Rightarrow> int" where
  "crefs_at a i k = (case heap k a of None \<Rightarrow> 0 | Some sl \<Rightarrow> s_crefs (sl_sockets sl ! i))"

text \<open>The invariant of the slots: a slot with reference count 0 is all zero.\<close>

definition free_slots_zeroed :: "socketlist \<Rightarrow> bool" where
  "free_slots_zeroed sl \<longleftrightarrow> (\<forall>s \<in> set (sl_sockets sl). s_crefs s = 0 \<longrightarrow> s = zero_socket)"

definition lists_zeroed :: "kernel \<Rightarrow> bool" where
  "lists_zeroed k \<longleftrightarrow> (\<forall>sl \<in> ran (heap k). free_slots_zeroed sl)"

text \<open>What the caller of \<^verbatim>\<open>sockfd_allocate\<close> and of \<^verbatim>\<open>sockfd_release\<close> is left with: the
  way the call ended, the value returned, and the socket lists.\<close>

definition alloc_view ::
  "(fault + int \<times> kernel) option \<Rightarrow> (fault + int \<times> (addr \<rightharpoonup> socketlist)) option" where
  "alloc_view r = map_option (map_sum id (\<lambda>(fd, k'). (fd, heap k'))) r"

definition release_view ::
  "(fault + kernel) option \<Rightarrow> (fault + (addr \<rightharpoonup> socketlist)) option" where
  "release_view r = map_option (map_sum id heap) r"

text \<open>The state in which \<^verbatim>\<open>_net_semtake\<close> returns after \<open>n\<close> interrupted waits.\<close>

definition semtaken :: "addr \<Rightarrow> nat \<Rightarrow> kernel \<Rightarrow> kernel" where
  "semtaken a n k =
     k\<lparr>sem_waits := sem_waits k + Suc n,
       errno := (if n = 0 then errno k else EINTR),
       calls := calls k @ replicate (Suc n) (SEM_WAIT a)\<rparr>"

text \<open>What the two branches of \<^verbatim>\<open>sockfd_release\<close> leave in the slot they are given.\<close>

definition release_slot :: "socket \<Rightarrow> socket" where
  "release_slot s = (if s_crefs s > 1 then s\<lparr>s_crefs := s_crefs s - 1\<rparr> else zero_socket)"

subsection \<open>Example states\<close>

text \<open>A table of four descriptors numbered from 8, and a task whose socket list, at
  address 16, has just been created. No wait is ever interrupted.\<close>

definition cfg4 :: config where
  "cfg4 = \<lparr>CONFIG_NSOCKET_DESCRIPTORS = 4, SOCKFD_OFFSET = 8\<rparr>"

definition fresh_list :: socketlist where
  "fresh_list = \<lparr>sl_crefs = 1, sl_sockets = [zero_socket, zero_socket, zero_socket, zero_socket]\<rparr>"

definition k_task :: kernel where
  "k_task = \<lparr>heap = [16 \<mapsto> fresh_list], mem_pool = [], task_sockets = Some 16,
              sem_script = (\<lambda>_. SemOK), sem_waits = 0, errno = 0, calls = []\<rparr>"

text \<open>The state before the list is created: the allocator has one block, at 16.\<close>

definition k_boot :: kernel where
  "k_boot = \<lparr>heap = Map.empty, mem_pool = [16], task_sockets = None,
              sem_script = (\<lambda>_. SemOK), sem_waits = 0, errno = 0, calls = []\<rparr>"

text \<open>The slots 0, 1 and 3 are in use, slot 1 by two holders; slot 2 is free.\<close>

definition busy_list :: socketlist where
  "busy_list = \<lparr>sl_crefs = 1,
                 sl_sockets = [\<lparr>s_crefs = 1, s_conn = 5\<rparr>, \<lparr>s_crefs = 2, s_conn = 6\<rparr>,
                               zero_socket, \<lparr>s_crefs = 1, s_conn = 7\<rparr>]\<rparr>"

definition k_busy :: kernel where
  "k_busy = k_task\<lparr>heap := [16 \<mapsto> busy_list]\<rparr>"

text \<open>Slot 1 is free but not clean: it holds the state of an earlier connection.\<close>

definition stale_list :: socketlist where
  "stale_list = \<lparr>sl_crefs = 1,
                  sl_sockets = [\<lparr>s_crefs = 1, s_conn = 5\<rparr>, \<lparr>s_crefs = 0, s_conn = 9\<rparr>,
                                zero_socket, zero_socket]\<rparr>"

definition k_stale :: kernel where
  "k_stale = k_task\<lparr>heap := [16 \<mapsto> stale_list]\<rparr>"



text \<open>The next two waits are interrupted by a signal, the third takes the semaphore.\<close>

definition twice_interrupted :: "nat \<Rightarrow> sem_result" where
  "twice_interrupted i = (if i < 2 then SemErr EINTR else SemOK)"

definition k_signalled :: kernel where
  "k_signalled = k_busy\<lparr>sem_script := twice_interrupted\<rparr>"

section \<open>Properties\<close>

subsection \<open>The wait loop\<close>

lemma sem_wait_ok:
  "sem_script k (sem_waits k) = SemOK \<Longrightarrow>
   sem_wait s k = (0, k\<lparr>calls := calls k @ [SEM_WAIT s], sem_waits := Suc (sem_waits k)\<rparr>)"
  by (simp add: sem_wait_def log_call_def)

lemma sem_wait_err:
  "sem_script k (sem_waits k) = SemErr e \<Longrightarrow>
   sem_wait s k =
     (- 1, k\<lparr>calls := calls k @ [SEM_WAIT s], sem_waits := Suc (sem_waits k), errno := e\<rparr>)"
  by (simp add: sem_wait_def log_call_def)

lemma net_semtake_acquires:
  "acquires_after n (sem_script k) (sem_waits k) \<Longrightarrow>
   net_semtake a k = Some (Inr (semtaken a n k))"
proof (induction n arbitrary: k)
  case 0
  then have "sem_script k (sem_waits k) = SemOK" by simp
  then show ?case
    by (subst net_semtake.simps) (simp add: sem_wait_ok semtaken_def)
next
  case (Suc n)
  define k1 where
    "k1 = k\<lparr>calls := calls k @ [SEM_WAIT a], sem_waits := Suc (sem_waits k), errno := EINTR\<rparr>"
  from Suc.prems have first: "sem_script k (sem_waits k) = SemErr EINTR"
    and rest: "acquires_after n (sem_script k1) (sem_waits k1)"
    by (simp_all add: k1_def)
  have "net_semtake a k = net_semtake a k1"
    by (subst net_semtake.simps) (simp add: sem_wait_err [OF first] k1_def)
  also have "\<dots> = Some (Inr (semtaken a n k1))"
    by (rule Suc.IH [OF rest])
  also have "semtaken a n k1 = semtaken a (Suc n) k"
    by (simp add: semtaken_def k1_def replicate_app_Cons_same)
  finally show ?case .
qed

lemma net_semtake_returns_aux:
  assumes "net_semtake a k = Some r"
  shows "isl r \<or> (\<exists>n. acquires_after n (sem_script k) (sem_waits k))"
proof (rule net_semtake.raw_induct
    [where P = "\<lambda>a k r. isl r \<or> (\<exists>n. acquires_after n (sem_script k) (sem_waits k))",
      OF _ assms], goal_cases)
  case (1 f list k r)
  show ?case
  proof (cases "sem_script k (sem_waits k)")
    case SemOK
    then have "acquires_after 0 (sem_script k) (sem_waits k)" by simp
    then show ?thesis by blast
  next
    case (SemErr e)
    note w = sem_wait_err [OF SemErr]
    show ?thesis
    proof (cases "e = EINTR")
      case True
      with 1(2) have "f list (snd (sem_wait list k)) = Some r"
        by (simp add: w)
      from 1(1) [OF this] show ?thesis
      proof
        assume "isl r"
        then show ?thesis ..
      next
        assume "\<exists>n. acquires_after n (sem_script (snd (sem_wait list k)))
                     (sem_waits (snd (sem_wait list k)))"
        then obtain n where "acquires_after n (sem_script k) (Suc (sem_waits k))"
          by (auto simp: w)
        with SemErr True have "acquires_after (Suc n) (sem_script k) (sem_waits k)"
          by simp
        then show ?thesis by blast
      qed
    next
      case False
      with 1(2) have "r = Inl AssertFailed"
        by (simp add: w)
      then show ?thesis by simp
    qed
  qed
qed

lemma net_semtake_returns:
  assumes "net_semtake a k = Some (Inr k')"
  obtains n where "acquires_after n (sem_script k) (sem_waits k)" and "k' = semtaken a n k"
proof -
  from net_semtake_returns_aux [OF assms]
  obtain n where n: "acquires_after n (sem_script k) (sem_waits k)" by auto
  from net_semtake_acquires [OF n, of a] assms have "k' = semtaken a n k" by simp
  with n that show thesis by blast
qed

subsection \<open>Reading and writing slots\<close>

lemma heap_semtaken [simp]: "heap (semtaken a n k) = heap k"
  and task_sockets_semtaken [simp]: "task_sockets (semtaken a n k) = task_sockets k"
  and mem_pool_semtaken [simp]: "mem_pool (semtaken a n k) = mem_pool k"
  and sem_script_semtaken [simp]: "sem_script (semtaken a n k) = sem_script k"
  and sem_waits_semtaken [simp]: "sem_waits (semtaken a n k) = sem_waits k + Suc n"
  and calls_semtaken [simp]: "calls (semtaken a n k) = calls k @ replicate (Suc n) (SEM_WAIT a)"
  by (simp_all add: semtaken_def)

lemma heap_net_semgive [simp]: "heap (net_semgive a k) = heap k"
  and task_sockets_net_semgive [simp]: "task_sockets (net_semgive a k) = task_sockets k"
  and mem_pool_net_semgive [simp]: "mem_pool (net_semgive a k) = mem_pool k"
  and sem_script_net_semgive [simp]: "sem_script (net_semgive a k) = sem_script k"
  and sem_waits_net_semgive [simp]: "sem_waits (net_semgive a k) = sem_waits k"
  and errno_net_semgive [simp]: "errno (net_semgive a k) = errno k"
  and calls_net_semgive [simp]: "calls (net_semgive a k) = calls k @ [SEM_POST a]"
  by (simp_all add: net_semgive_def sem_post_def log_call_def)

lemma read_sock_Some:
  "heap k a = Some sl \<Longrightarrow> read_sock (a, i) k = Some (sl_sockets sl ! i)"
  by (simp add: read_sock_def)

lemma read_sock_None:
  "heap k a = None \<Longrightarrow> read_sock (a, i) k = None"
  by (simp add: read_sock_def)

lemma heap_update_sock:
  "heap k a = Some sl \<Longrightarrow>
   heap (update_sock (a, i) f k) =
     (heap k)(a \<mapsto> sl\<lparr>sl_sockets := (sl_sockets sl)[i := f (sl_sockets sl ! i)]\<rparr>)"
  by (simp add: update_sock_def)

lemma update_sock_None:
  "heap k a = None \<Longrightarrow> update_sock (a, i) f k = k"
  by (simp add: update_sock_def)

lemma task_sockets_update_sock [simp]: "task_sockets (update_sock p f k) = task_sockets k"
  and mem_pool_update_sock [simp]: "mem_pool (update_sock p f k) = mem_pool k"
  and sem_script_update_sock [simp]: "sem_script (update_sock p f k) = sem_script k"
  and sem_waits_update_sock [simp]: "sem_waits (update_sock p f k) = sem_waits k"
  and errno_update_sock [simp]: "errno (update_sock p f k) = errno k"
  and calls_update_sock [simp]: "calls (update_sock p f k) = calls k"
  by (simp_all add: update_sock_def split: option.splits)

text \<open>Clearing a slot and then setting its count to one leaves the cleared slot with
  count one.\<close>

lemma take_slot:
  "update_sock (a, j) (\<lambda>s. s\<lparr>s_crefs := 1\<rparr>) (update_sock (a, j) (\<lambda>_. zero_socket) k) =
   update_sock (a, j) (\<lambda>_. zero_socket\<lparr>s_crefs := 1\<rparr>) k"
proof (cases "heap k a")
  case None
  then show ?thesis by (simp add: update_sock_None)
next
  case (Some sl)
  then show ?thesis
    by (cases "j < length (sl_sockets sl)")
      (simp_all add: update_sock_def not_less list_update_beyond)
qed

subsection \<open>The scan for a free slot\<close>

lemma scan_skip:
  assumes "heap k a = Some sl"
    and "\<forall>m. i \<le> m \<and> m < j \<longrightarrow> s_crefs (sl_sockets sl ! m) \<noteq> 0"
    and "i \<le> j" and "j \<le> CONFIG_NSOCKET_DESCRIPTORS cfg"
  shows "sockfd_allocate_scan cfg a i k = sockfd_allocate_scan cfg a j k"
  using assms(2,3)
proof (induction "j - i" arbitrary: i)
  case 0
  then show ?case by simp
next
  case (Suc d)
  then have "i < j" and nz: "s_crefs (sl_sockets sl ! i) \<noteq> 0" by auto
  have "sockfd_allocate_scan cfg a i k = sockfd_allocate_scan cfg a (Suc i) k"
    using \<open>i < j\<close> assms(4) nz
    by (subst sockfd_allocate_scan.simps) (simp add: read_sock_Some [OF assms(1)])
  also have "\<dots> = sockfd_allocate_scan cfg a j k"
    using Suc.hyps(2) Suc.prems \<open>i < j\<close> by (intro Suc.hyps(1)) auto
  finally show ?case .
qed

lemma scan_here:
  assumes "heap k a = Some sl"
    and "j < CONFIG_NSOCKET_DESCRIPTORS cfg"
    and "s_crefs (sl_sockets sl ! j) = 0"
  shows "sockfd_allocate_scan cfg a j k =
           Inr (Some (int j + SOCKFD_OFFSET cfg),
                net_semgive a (update_sock (a, j) (\<lambda>_. zero_socket\<lparr>s_crefs := 1\<rparr>) k))"
  using assms(2,3) by (simp add: read_sock_Some [OF assms(1)] take_slot)

lemma scan_found:
  assumes "heap k a = Some sl"
    and "j < CONFIG_NSOCKET_DESCRIPTORS cfg"
    and "s_crefs (sl_sockets sl ! j) = 0"
    and "\<forall>m < j. s_crefs (sl_sockets sl ! m) \<noteq> 0"
  shows "sockfd_allocate_scan cfg a 0 k =
           Inr (Some (int j + SOCKFD_OFFSET cfg),
                net_semgive a (update_sock (a, j) (\<lambda>_. zero_socket\<lparr>s_crefs := 1\<rparr>) k))"
proof -
  have "sockfd_allocate_scan cfg a 0 k = sockfd_allocate_scan cfg a j k"
    using assms(2,4) by (intro scan_skip [OF assms(1)]) auto
  then show ?thesis
    by (simp only: scan_here [OF assms(1-3)])
qed

lemma scan_full:
  assumes "heap k a = Some sl"
    and "\<forall>m < CONFIG_NSOCKET_DESCRIPTORS cfg. s_crefs (sl_sockets sl ! m) \<noteq> 0"
  shows "sockfd_allocate_scan cfg a 0 k = Inr (None, k)"
proof -
  have "sockfd_allocate_scan cfg a 0 k =
        sockfd_allocate_scan cfg a (CONFIG_NSOCKET_DESCRIPTORS cfg) k"
    using assms(2) by (intro scan_skip [OF assms(1)]) auto
  then show ?thesis by simp
qed

text \<open>Either some slot is free, and then there is a lowest one, or none is.\<close>

lemma lowest_free_cases:
  obtains (full) "\<forall>m < c. s_crefs (xs ! m) \<noteq> 0"
  | (free) j where "j < c" and "s_crefs (xs ! j) = 0" and "\<forall>m < j. s_crefs (xs ! m) \<noteq> 0"
proof (cases "\<exists>m < c. s_crefs (xs ! m) = 0")
  case False
  then show ?thesis using full by blast
next
  case True
  define j where "j = (LEAST m. m < c \<and> s_crefs (xs ! m) = 0)"
  from True obtain m where "m < c \<and> s_crefs (xs ! m) = 0" by blast
  then have "j < c \<and> s_crefs (xs ! j) = 0"
    unfolding j_def by (rule LeastI)
  moreover have "\<forall>m < j. s_crefs (xs ! m) \<noteq> 0"
  proof (intro allI impI)
    fix m assume "m < j"
    then have "\<not> (m < c \<and> s_crefs (xs ! m) = 0)"
      unfolding j_def by (rule not_less_Least)
    with \<open>m < j\<close> \<open>j < c \<and> s_crefs (xs ! j) = 0\<close> show "s_crefs (xs ! m) \<noteq> 0"
      by simp
  qed
  ultimately show ?thesis using free by blast
qed

subsection \<open>What \<^verbatim>\<open>sockfd_allocate\<close> and \<^verbatim>\<open>sockfd_release\<close> compute\<close>

lemma sockfd_allocate_no_list:
  "task_sockets k = None \<Longrightarrow> sockfd_allocate cfg k = Some (Inr (ERROR, k))"
  by (simp add: sockfd_allocate_def sched_getsockets_def)

lemma sockfd_allocate_found:
  assumes "task_sockets k = Some a" and "heap k a = Some sl"
    and "acquires_after n (sem_script k) (sem_waits k)"
    and "j < CONFIG_NSOCKET_DESCRIPTORS cfg"
    and "s_crefs (sl_sockets sl ! j) = 0"
    and "\<forall>m < j. s_crefs (sl_sockets sl ! m) \<noteq> 0"
  shows "sockfd_allocate cfg k =
           Some (Inr (int j + SOCKFD_OFFSET cfg,
                      net_semgive a (update_sock (a, j) (\<lambda>_. zero_socket\<lparr>s_crefs := 1\<rparr>)
                                       (semtaken a n k))))"
proof -
  have "heap (semtaken a n k) a = Some sl"
    using assms(2) by simp
  from scan_found [OF this assms(4-6)] show ?thesis
    by (simp add: sockfd_allocate_def sched_getsockets_def assms(1)
        net_semtake_acquires [OF assms(3)])
qed

lemma sockfd_allocate_full:
  assumes "task_sockets k = Some a" and "heap k a = Some sl"
    and "acquires_after n (sem_script k) (sem_waits k)"
    and "\<forall>m < CONFIG_NSOCKET_DESCRIPTORS cfg. s_crefs (sl_sockets sl ! m) \<noteq> 0"
  shows "sockfd_allocate cfg k = Some (Inr (ERROR, net_semgive a (semtaken a n k)))"
proof -
  have "heap (semtaken a n k) a = Some sl"
    using assms(2) by simp
  from scan_full [OF this assms(4)] show ?thesis
    by (simp add: sockfd_allocate_def sched_getsockets_def assms(1)
        net_semtake_acquires [OF assms(3)])
qed

text \<open>Every run of \<^verbatim>\<open>sockfd_allocate\<close> that returns is one of the three above, or the
  run on a list pointer that is not allocated, with a table of no slots.\<close>

lemma sockfd_allocate_cases:
  assumes "sockfd_allocate cfg k = Some (Inr (fd, k'))"
  obtains (no_list) "task_sockets k = None" and "fd = ERROR" and "k' = k"
  | (dangling) a n where "task_sockets k = Some a" and "heap k a = None"
      and "fd = ERROR" and "k' = net_semgive a (semtaken a n k)"
  | (full) a sl n where "task_sockets k = Some a" and "heap k a = Some sl"
      and "acquires_after n (sem_script k) (sem_waits k)"
      and "\<forall>m < CONFIG_NSOCKET_DESCRIPTORS cfg. s_crefs (sl_sockets sl ! m) \<noteq> 0"
      and "fd = ERROR" and "k' = net_semgive a (semtaken a n k)"
  | (found) a sl n j where "task_sockets k = Some a" and "heap k a = Some sl"
      and "acquires_after n (sem_script k) (sem_waits k)"
      and "j < CONFIG_NSOCKET_DESCRIPTORS cfg"
      and "s_crefs (sl_sockets sl ! j) = 0"
      and "\<forall>m < j. s_crefs (sl_sockets sl ! m) \<noteq> 0"
      and "fd = int j + SOCKFD_OFFSET cfg"
      and "k' = net_semgive a (update_sock (a, j) (\<lambda>_. zero_socket\<lparr>s_crefs := 1\<rparr>)
                                 (semtaken a n k))"
proof (cases "task_sockets k")
  case None
  from assms sockfd_allocate_no_list [OF None, of cfg]
  have "fd = ERROR" and "k' = k" by simp_all
  with None show ?thesis by (rule no_list)
next
  case (Some a)
  from assms Some obtain k1 where k1: "net_semtake a k = Some (Inr k1)"
    by (auto simp: sockfd_allocate_def sched_getsockets_def split: option.splits sum.splits)
  from net_semtake_returns [OF k1]
  obtain n where n: "acquires_after n (sem_script k) (sem_waits k)" by blast
  show ?thesis
  proof (cases "heap k a")
    case None
    then have "heap (semtaken a n k) a = None" by simp
    with assms Some have "fd = ERROR \<and> k' = net_semgive a (semtaken a n k)"
      by (auto simp: sockfd_allocate_def sched_getsockets_def net_semtake_acquires [OF n]
          read_sock_None split: if_splits)
    with Some None dangling show ?thesis
      by blast
  next
    case sl: (Some sl)
    show ?thesis
    proof (rule lowest_free_cases [of "CONFIG_NSOCKET_DESCRIPTORS cfg" "sl_sockets sl"], goal_cases)
      case full: 1
      from sockfd_allocate_full [OF Some sl n full] assms
      have "fd = ERROR" and "k' = net_semgive a (semtaken a n k)" by simp_all
      with Some sl n full show ?thesis by (rule that(3))
    next
      case free: (2 j)
      from sockfd_allocate_found [OF Some sl n free] assms
      have "fd = int j + SOCKFD_OFFSET cfg"
        and "k' = net_semgive a (update_sock (a, j) (\<lambda>_. zero_socket\<lparr>s_crefs := 1\<rparr>)
                                 (semtaken a n k))" by simp_all
      with Some sl n free show ?thesis by (rule that(4))
    qed
  qed
qed

lemma update_sock_cong:
  "heap k a = Some sl \<Longrightarrow> f (sl_sockets sl ! i) = g (sl_sockets sl ! i) \<Longrightarrow>
   update_sock (a, i) f k = update_sock (a, i) g k"
  by (simp add: update_sock_def)

lemma sockfd_release_out_of_range:
  "sockfd - SOCKFD_OFFSET cfg < 0 \<or> int (CONFIG_NSOCKET_DESCRIPTORS cfg) \<le> sockfd - SOCKFD_OFFSET cfg
   \<Longrightarrow> sockfd_release cfg sockfd k = Some (Inr k)"
  by (auto simp: sockfd_release_def sockfd_socket_def Let_def)

lemma sockfd_release_no_list:
  "task_sockets k = None \<Longrightarrow> sockfd_release cfg sockfd k = Some (Inr k)"
  by (simp add: sockfd_release_def sockfd_socket_def Let_def sched_getsockets_def)

lemma sockfd_release_slot:
  assumes "0 \<le> sockfd - SOCKFD_OFFSET cfg"
    and "sockfd - SOCKFD_OFFSET cfg < int (CONFIG_NSOCKET_DESCRIPTORS cfg)"
    and "task_sockets k = Some a" and "heap k a = Some sl"
    and "acquires_after n (sem_script k) (sem_waits k)"
  shows "sockfd_release cfg sockfd k =
           Some (Inr (net_semgive a
                        (update_sock (a, nat (sockfd - SOCKFD_OFFSET cfg)) release_slot
                           (semtaken a n k))))"
proof -
  define i where "i = nat (sockfd - SOCKFD_OFFSET cfg)"
  define k1 where "k1 = semtaken a n k"
  have look: "sockfd_socket cfg sockfd k = (Some (a, i), k)"
    using assms(1-3) by (simp add: sockfd_socket_def sched_getsockets_def i_def)
  have h1: "heap k1 a = Some sl"
    using assms(4) by (simp add: k1_def)
  have dec: "update_sock (a, i) (\<lambda>s. s\<lparr>s_crefs := s_crefs s - 1\<rparr>) k1 = update_sock (a, i) release_slot k1"
    if "s_crefs (sl_sockets sl ! i) > 1"
    using that by (intro update_sock_cong [OF h1]) (simp add: release_slot_def)
  have clr: "update_sock (a, i) (\<lambda>_. zero_socket) k1 = update_sock (a, i) release_slot k1"
    if "\<not> s_crefs (sl_sockets sl ! i) > 1"
    using that by (intro update_sock_cong [OF h1]) (simp add: release_slot_def)
  have "sockfd_release cfg sockfd k =
          Some (Inr (net_semgive a (update_sock (a, i) release_slot k1)))"
    using dec clr
    by (simp add: sockfd_release_def look sched_getsockets_def assms(3)
        net_semtake_acquires [OF assms(5)] read_sock_Some [OF h1] flip: k1_def)
  then show ?thesis
    by (simp add: i_def k1_def)
qed

text \<open>Every run of \<^verbatim>\<open>sockfd_release\<close> that returns is one of the three above.\<close>

lemma sockfd_release_cases:
  assumes "sockfd_release cfg sockfd k = Some (Inr k')"
  obtains (noop) "sockfd - SOCKFD_OFFSET cfg < 0
      \<or> int (CONFIG_NSOCKET_DESCRIPTORS cfg) \<le> sockfd - SOCKFD_OFFSET cfg
      \<or> task_sockets k = None" and "k' = k"
  | (slot) a sl n where "0 \<le> sockfd - SOCKFD_OFFSET cfg"
      and "sockfd - SOCKFD_OFFSET cfg < int (CONFIG_NSOCKET_DESCRIPTORS cfg)"
      and "task_sockets k = Some a" and "heap k a = Some sl"
      and "acquires_after n (sem_script k) (sem_waits k)"
      and "k' = net_semgive a (update_sock (a, nat (sockfd - SOCKFD_OFFSET cfg)) release_slot
                                 (semtaken a n k))"
proof (cases "sockfd - SOCKFD_OFFSET cfg < 0
      \<or> int (CONFIG_NSOCKET_DESCRIPTORS cfg) \<le> sockfd - SOCKFD_OFFSET cfg
      \<or> task_sockets k = None")
  case True
  then have "sockfd_release cfg sockfd k = Some (Inr k)"
    using sockfd_release_out_of_range [of sockfd cfg k] sockfd_release_no_list [of k cfg sockfd]
    by blast
  with assms have "k' = k" by simp
  with True show ?thesis by (rule noop)
next
  case False
  then obtain a where range: "0 \<le> sockfd - SOCKFD_OFFSET cfg"
      "sockfd - SOCKFD_OFFSET cfg < int (CONFIG_NSOCKET_DESCRIPTORS cfg)"
    and a: "task_sockets k = Some a"
    by auto
  have look: "sockfd_socket cfg sockfd k = (Some (a, nat (sockfd - SOCKFD_OFFSET cfg)), k)"
    using range a by (simp add: sockfd_socket_def sched_getsockets_def)
  from assms obtain k1 where k1: "net_semtake a k = Some (Inr k1)"
    by (auto simp: sockfd_release_def look sched_getsockets_def a split: option.splits sum.splits)
  from net_semtake_returns [OF k1]
  obtain n where n: "acquires_after n (sem_script k) (sem_waits k)" by blast
  show ?thesis
  proof (cases "heap k a")
    case None
    then have "read_sock (a, nat (sockfd - SOCKFD_OFFSET cfg)) (semtaken a n k) = None"
      by (simp add: read_sock_None)
    with assms show ?thesis
      by (simp add: sockfd_release_def look sched_getsockets_def a net_semtake_acquires [OF n])
  next
    case (Some sl)
    from sockfd_release_slot [OF range a Some n] assms
    have "k' = net_semgive a (update_sock (a, nat (sockfd - SOCKFD_OFFSET cfg)) release_slot
                                 (semtaken a n k))"
      by simp
    with range a Some n show ?thesis by (rule slot)
  qed
qed

lemma update_sock_same:
  assumes "heap k a = Some sl" and "f (sl_sockets sl ! i) = sl_sockets sl ! i"
  shows "update_sock (a, i) f k = k"
proof -
  have "sl\<lparr>sl_sockets := (sl_sockets sl)[i := sl_sockets sl ! i]\<rparr> = sl"
    by simp
  then have "(heap k)(a \<mapsto> sl\<lparr>sl_sockets := (sl_sockets sl)[i := f (sl_sockets sl ! i)]\<rparr>) = heap k"
    using assms by (simp add: map_upd_triv)
  then show ?thesis
    using assms(1) by (simp add: update_sock_def)
qed

text \<open>The state after the semaphore was taken, after \<open>n\<close> interrupted waits, and given
  back.\<close>

lemma net_semgive_semtaken:
  "net_semgive a (semtaken a n k) =
     k\<lparr>sem_waits := sem_waits k + Suc n,
       errno := (if n = 0 then errno k else EINTR),
       calls := calls k @ replicate (Suc n) (SEM_WAIT a) @ [SEM_POST a]\<rparr>"
  by (simp add: net_semgive_def sem_post_def log_call_def semtaken_def)

subsection \<open>The life cycle of a list\<close>

text \<open>The decrement of the 16-bit count, read as a signed value.\<close>

lemma sint_dec:
  assumes "sint (w :: 16 word) \<noteq> - 32768"
  shows "sint (w - 1) = sint w - 1"
proof -
  have "- (2 ^ (LENGTH(16) - 1)) \<le> sint w" "sint w < 2 ^ (LENGTH(16) - 1)"
    by (rule sint_ge, rule sint_lt)
  with assms have "- (2 ^ 15) \<le> sint w - 1" "sint w - 1 < 2 ^ 15"
    by simp_all
  then have "signed_take_bit 15 (sint w - 1) = sint w - 1"
    by (simp add: signed_take_bit_int_eq_self)
  then show ?thesis
    by (simp add: sint_word_ariths)
qed

lemma sint_dec_wrap:
  assumes "sint (w :: 16 word) = - 32768"
  shows "sint (w - 1) = 32767"
proof -
  from assms have "word_of_int (sint w) = (word_of_int (- 32768) :: 16 word)"
    by simp
  then have "w = word_of_int (- 32768)"
    by simp
  then show ?thesis by simp
qed

lemma net_alloclist_Some:
  "mem_pool k = a # rest \<Longrightarrow>
   net_alloclist cfg k =
     (Some a, k\<lparr>heap := (heap k)(a \<mapsto> (zero_socketlist cfg)\<lparr>sl_crefs := 1\<rparr>),
                mem_pool := rest,
                calls := calls k @ [KZMALLOC, SEM_INIT a 0 1]\<rparr>)"
  by (simp add: net_alloclist_def kzmalloc_def sem_init_def log_call_def)

lemma net_alloclist_None:
  "mem_pool k = [] \<Longrightarrow> net_alloclist cfg k = (None, k\<lparr>calls := calls k @ [KZMALLOC]\<rparr>)"
  by (simp add: net_alloclist_def kzmalloc_def log_call_def)

lemma net_addreflist_Some:
  "heap k a = Some sl \<Longrightarrow>
   net_addreflist (Some a) k =
     Inr (OK, k\<lparr>heap := (heap k)(a \<mapsto> sl\<lparr>sl_crefs := sl_crefs sl + 1\<rparr>),
                calls := calls k @ [IRQSAVE, IRQRESTORE]\<rparr>)"
  by (simp add: net_addreflist_def irqsave_def irqrestore_def log_call_def)

lemma net_releaselist_keeps:
  "heap k a = Some sl \<Longrightarrow> 0 < sint (sl_crefs sl - 1) \<Longrightarrow>
   net_releaselist (Some a) k =
     Inr (OK, k\<lparr>heap := (heap k)(a \<mapsto> sl\<lparr>sl_crefs := sl_crefs sl - 1\<rparr>),
                calls := calls k @ [IRQSAVE, IRQRESTORE]\<rparr>)"
  by (simp add: net_releaselist_def irqsave_def irqrestore_def log_call_def Let_def)

lemma net_releaselist_frees:
  "heap k a = Some sl \<Longrightarrow> sint (sl_crefs sl - 1) \<le> 0 \<Longrightarrow>
   net_releaselist (Some a) k =
     Inr (OK, k\<lparr>heap := (heap k)(a := None),
                calls := calls k @ [IRQSAVE, IRQRESTORE, SEM_DESTROY a, SCHED_FREE a]\<rparr>)"
  by (simp add: net_releaselist_def irqsave_def irqrestore_def log_call_def Let_def
      sem_destroy_def sched_free_def)

section \<open>The claims\<close>

subsection \<open>Lookup\<close>

text \<open>
  C8. \<^verbatim>\<open>sockfd_socket\<close> is a pure translation. It subtracts the base offset from the
  descriptor; it returns no slot when the index is outside \<open>[0, capacity)\<close> or when the
  caller has no socket list, and the pointer to the slot at that index otherwise. The
  state it returns is the state it was called in: no semaphore call is made (the log of
  calls is the same) and nothing is written.
\<close>

theorem sockfd_socket_pure:
  "sockfd_socket cfg sockfd k =
     ((if sockfd - SOCKFD_OFFSET cfg < 0
          \<or> int (CONFIG_NSOCKET_DESCRIPTORS cfg) \<le> sockfd - SOCKFD_OFFSET cfg
       then None
       else (case sched_getsockets k of
               None \<Rightarrow> None
             | Some list \<Rightarrow> Some (list, nat (sockfd - SOCKFD_OFFSET cfg)))), k)"
  by (simp add: sockfd_socket_def Let_def split: option.splits)

theorem sockfd_socket_pure_witness:
  "sockfd_socket cfg4 9 k_task = (Some (16, 1), k_task)
   \<and> sockfd_socket cfg4 12 k_task = (None, k_task)
   \<and> sockfd_socket cfg4 7 k_task = (None, k_task)
   \<and> sockfd_socket cfg4 9 (k_task\<lparr>task_sockets := None\<rparr>) = (None, k_task\<lparr>task_sockets := None\<rparr>)"
  using sockfd_socket_pure [of cfg4 9 k_task] sockfd_socket_pure [of cfg4 12 k_task]
    sockfd_socket_pure [of cfg4 7 k_task]
    sockfd_socket_pure [of cfg4 9 "k_task\<lparr>task_sockets := None\<rparr>"]
  by (simp add: cfg4_def k_task_def sched_getsockets_def)

text \<open>
  C10. \<^verbatim>\<open>sockfd_socket\<close> never reads a reference count. For a descriptor in range and a
  caller that has a socket list, it returns the pointer to the slot whatever the heap
  holds: also when the slot is free and was never allocated.
\<close>

theorem sockfd_socket_ignores_crefs:
  assumes "0 \<le> sockfd - SOCKFD_OFFSET cfg"
    and "sockfd - SOCKFD_OFFSET cfg < int (CONFIG_NSOCKET_DESCRIPTORS cfg)"
    and "task_sockets k = Some a"
  shows "fst (sockfd_socket cfg sockfd (k\<lparr>heap := h\<rparr>)) = Some (a, nat (sockfd - SOCKFD_OFFSET cfg))"
  using assms by (simp add: sockfd_socket_def sched_getsockets_def)

theorem sockfd_socket_ignores_crefs_witness:
  "fst (sockfd_socket cfg4 9 k_task) = Some (16, 1)
   \<and> map_option s_crefs (read_sock (16, 1) k_task) = Some 0"
proof -
  have "fst (sockfd_socket cfg4 9 (k_task\<lparr>heap := heap k_task\<rparr>)) =
        Some (16, nat (9 - SOCKFD_OFFSET cfg4))"
    by (rule sockfd_socket_ignores_crefs) (simp_all add: cfg4_def k_task_def)
  then show ?thesis
    by (simp add: cfg4_def k_task_def read_sock_def fresh_list_def zero_socket_def)
qed

subsection \<open>The reference count of a list\<close>

text \<open>
  C4. \<^verbatim>\<open>net_releaselist\<close> decrements the reference count of the list by one, in the
  16-bit field that holds it: the decremented count is the count minus one, but for the
  least value of the field, -32768, where the decrement wraps around to 32767. It
  destroys the semaphore and frees the list exactly when the decremented count is zero
  or below; otherwise the list stays allocated with the decremented count. In
  particular, for a list created by \<^verbatim>\<open>net_alloclist\<close> (count 1) and referenced twice
  more by \<^verbatim>\<open>net_addreflist\<close> (count 3), the first two releases leave the list allocated,
  with counts 2 and 1 and no call to the allocator, and the third frees it.
\<close>

theorem net_releaselist_frees_at_zero:
  "(heap k a = Some sl \<longrightarrow>
      net_releaselist (Some a) k =
        Inr (OK, if sint (sl_crefs sl - 1) \<le> 0
                 then k\<lparr>heap := (heap k)(a := None),
                        calls := calls k @ [IRQSAVE, IRQRESTORE, SEM_DESTROY a, SCHED_FREE a]\<rparr>
                 else k\<lparr>heap := (heap k)(a \<mapsto> sl\<lparr>sl_crefs := sl_crefs sl - 1\<rparr>),
                        calls := calls k @ [IRQSAVE, IRQRESTORE]\<rparr>))
   \<and> (sint (sl_crefs sl) \<noteq> - 32768 \<longrightarrow> sint (sl_crefs sl - 1) = sint (sl_crefs sl) - 1)
   \<and> (sint (sl_crefs sl) = - 32768 \<longrightarrow> sint (sl_crefs sl - 1) = 32767)
   \<and> (mem_pool k0 = a0 # rest \<longrightarrow>
        (\<exists>k1 k2 k3 k4 k5 k6.
           net_alloclist cfg k0 = (Some a0, k1)
           \<and> map_option sl_crefs (heap k1 a0) = Some 1
           \<and> net_addreflist (Some a0) k1 = Inr (OK, k2)
           \<and> net_addreflist (Some a0) k2 = Inr (OK, k3)
           \<and> map_option sl_crefs (heap k3 a0) = Some 3
           \<and> net_releaselist (Some a0) k3 = Inr (OK, k4)
           \<and> map_option sl_crefs (heap k4 a0) = Some 2
           \<and> calls k4 = calls k3 @ [IRQSAVE, IRQRESTORE]
           \<and> net_releaselist (Some a0) k4 = Inr (OK, k5)
           \<and> map_option sl_crefs (heap k5 a0) = Some 1
           \<and> calls k5 = calls k4 @ [IRQSAVE, IRQRESTORE]
           \<and> net_releaselist (Some a0) k5 = Inr (OK, k6)
           \<and> heap k6 a0 = None
           \<and> calls k6 = calls k5 @ [IRQSAVE, IRQRESTORE, SEM_DESTROY a0, SCHED_FREE a0]))"
proof (intro conjI impI)
  assume "heap k a = Some sl"
  then show "net_releaselist (Some a) k =
        Inr (OK, if sint (sl_crefs sl - 1) \<le> 0
                 then k\<lparr>heap := (heap k)(a := None),
                        calls := calls k @ [IRQSAVE, IRQRESTORE, SEM_DESTROY a, SCHED_FREE a]\<rparr>
                 else k\<lparr>heap := (heap k)(a \<mapsto> sl\<lparr>sl_crefs := sl_crefs sl - 1\<rparr>),
                        calls := calls k @ [IRQSAVE, IRQRESTORE]\<rparr>)"
    using net_releaselist_frees [of k a sl] net_releaselist_keeps [of k a sl]
    by (cases "sint (sl_crefs sl - 1) \<le> 0") simp_all
next
  assume "sint (sl_crefs sl) \<noteq> - 32768"
  then show "sint (sl_crefs sl - 1) = sint (sl_crefs sl) - 1"
    by (rule sint_dec)
next
  assume "sint (sl_crefs sl) = - 32768"
  then show "sint (sl_crefs sl - 1) = 32767"
    by (rule sint_dec_wrap)
next
  assume pool: "mem_pool k0 = a0 # rest"
  define l1 where "l1 = (zero_socketlist cfg)\<lparr>sl_crefs := 1\<rparr>"
  define k1 where "k1 = k0\<lparr>heap := (heap k0)(a0 \<mapsto> l1), mem_pool := rest,
                calls := calls k0 @ [KZMALLOC, SEM_INIT a0 0 1]\<rparr>"
  define k2 where "k2 = k1\<lparr>heap := (heap k1)(a0 \<mapsto> l1\<lparr>sl_crefs := 2\<rparr>),
                calls := calls k1 @ [IRQSAVE, IRQRESTORE]\<rparr>"
  define k3 where "k3 = k2\<lparr>heap := (heap k2)(a0 \<mapsto> l1\<lparr>sl_crefs := 3\<rparr>),
                calls := calls k2 @ [IRQSAVE, IRQRESTORE]\<rparr>"
  define k4 where "k4 = k3\<lparr>heap := (heap k3)(a0 \<mapsto> l1\<lparr>sl_crefs := 2\<rparr>),
                calls := calls k3 @ [IRQSAVE, IRQRESTORE]\<rparr>"
  define k5 where "k5 = k4\<lparr>heap := (heap k4)(a0 \<mapsto> l1\<lparr>sl_crefs := 1\<rparr>),
                calls := calls k4 @ [IRQSAVE, IRQRESTORE]\<rparr>"
  define k6 where "k6 = k5\<lparr>heap := (heap k5)(a0 := None),
                calls := calls k5 @ [IRQSAVE, IRQRESTORE, SEM_DESTROY a0, SCHED_FREE a0]\<rparr>"
  have h1: "heap k1 a0 = Some l1" by (simp add: k1_def)
  have h2: "heap k2 a0 = Some (l1\<lparr>sl_crefs := 2\<rparr>)" by (simp add: k2_def)
  have h3: "heap k3 a0 = Some (l1\<lparr>sl_crefs := 3\<rparr>)" by (simp add: k3_def)
  have h4: "heap k4 a0 = Some (l1\<lparr>sl_crefs := 2\<rparr>)" by (simp add: k4_def)
  have h5: "heap k5 a0 = Some (l1\<lparr>sl_crefs := 1\<rparr>)" by (simp add: k5_def)
  have s1: "net_alloclist cfg k0 = (Some a0, k1)"
    using net_alloclist_Some [OF pool, of cfg] by (simp add: k1_def l1_def)
  have s2: "net_addreflist (Some a0) k1 = Inr (OK, k2)"
    using net_addreflist_Some [OF h1] by (simp add: k2_def l1_def)
  have s3: "net_addreflist (Some a0) k2 = Inr (OK, k3)"
    using net_addreflist_Some [OF h2] by (simp add: k3_def)
  have s4: "net_releaselist (Some a0) k3 = Inr (OK, k4)"
    using net_releaselist_keeps [OF h3] by (simp add: k4_def)
  have s5: "net_releaselist (Some a0) k4 = Inr (OK, k5)"
    using net_releaselist_keeps [OF h4] by (simp add: k5_def)
  have s6: "net_releaselist (Some a0) k5 = Inr (OK, k6)"
    using net_releaselist_frees [OF h5] by (simp add: k6_def)
  have c: "map_option sl_crefs (heap k1 a0) = Some 1" "map_option sl_crefs (heap k3 a0) = Some 3"
    "map_option sl_crefs (heap k4 a0) = Some 2" "map_option sl_crefs (heap k5 a0) = Some 1"
    by (simp_all add: h1 h3 h4 h5 l1_def)
  have d: "calls k4 = calls k3 @ [IRQSAVE, IRQRESTORE]" "calls k5 = calls k4 @ [IRQSAVE, IRQRESTORE]"
    "calls k6 = calls k5 @ [IRQSAVE, IRQRESTORE, SEM_DESTROY a0, SCHED_FREE a0]" "heap k6 a0 = None"
    by (simp_all add: k4_def k5_def k6_def)
  from s1 s2 s3 s4 s5 s6 c d
  show "\<exists>k1 k2 k3 k4 k5 k6.
           net_alloclist cfg k0 = (Some a0, k1)
           \<and> map_option sl_crefs (heap k1 a0) = Some 1
           \<and> net_addreflist (Some a0) k1 = Inr (OK, k2)
           \<and> net_addreflist (Some a0) k2 = Inr (OK, k3)
           \<and> map_option sl_crefs (heap k3 a0) = Some 3
           \<and> net_releaselist (Some a0) k3 = Inr (OK, k4)
           \<and> map_option sl_crefs (heap k4 a0) = Some 2
           \<and> calls k4 = calls k3 @ [IRQSAVE, IRQRESTORE]
           \<and> net_releaselist (Some a0) k4 = Inr (OK, k5)
           \<and> map_option sl_crefs (heap k5 a0) = Some 1
           \<and> calls k5 = calls k4 @ [IRQSAVE, IRQRESTORE]
           \<and> net_releaselist (Some a0) k5 = Inr (OK, k6)
           \<and> heap k6 a0 = None
           \<and> calls k6 = calls k5 @ [IRQSAVE, IRQRESTORE, SEM_DESTROY a0, SCHED_FREE a0]"
    by blast
qed

text \<open>The witness releases a list of count 1, which is freed, and a list whose count is the
  least value of the field, which is kept with count 32767; and it runs the scenario.\<close>

theorem net_releaselist_frees_at_zero_witness:
  "heap k_task 16 = Some fresh_list
   \<and> net_releaselist (Some 16) k_task =
        Inr (OK, k_task\<lparr>heap := (heap k_task)(16 := None),
                       calls := calls k_task @ [IRQSAVE, IRQRESTORE, SEM_DESTROY 16, SCHED_FREE 16]\<rparr>)
   \<and> sint (sl_crefs fresh_list - 1) = sint (sl_crefs fresh_list) - 1
   \<and> net_releaselist (Some 16) (k_task\<lparr>heap := [16 \<mapsto> fresh_list\<lparr>sl_crefs := - 32768\<rparr>]\<rparr>) =
        Inr (OK, k_task\<lparr>heap := [16 \<mapsto> fresh_list\<lparr>sl_crefs := 32767\<rparr>],
                       calls := [IRQSAVE, IRQRESTORE]\<rparr>)
   \<and> mem_pool k_boot = [16]
   \<and> (\<exists>k1 k2 k3 k4 k5 k6.
           net_alloclist cfg4 k_boot = (Some 16, k1)
           \<and> net_addreflist (Some 16) k1 = Inr (OK, k2)
           \<and> net_addreflist (Some 16) k2 = Inr (OK, k3)
           \<and> net_releaselist (Some 16) k3 = Inr (OK, k4)
           \<and> map_option sl_crefs (heap k4 16) = Some 2
           \<and> net_releaselist (Some 16) k4 = Inr (OK, k5)
           \<and> map_option sl_crefs (heap k5 16) = Some 1
           \<and> net_releaselist (Some 16) k5 = Inr (OK, k6)
           \<and> heap k6 16 = None)"
proof -
  define k_min where "k_min = k_task\<lparr>heap := [16 \<mapsto> fresh_list\<lparr>sl_crefs := - 32768\<rparr>]\<rparr>"
  have a: "heap k_task 16 = Some fresh_list"
    by (simp add: k_task_def)
  have b: "mem_pool k_boot = [16]"
    by (simp add: k_boot_def)
  have c: "sint (sl_crefs fresh_list - 1) \<le> 0" "sint (sl_crefs fresh_list) \<noteq> - 32768"
    by (simp_all add: fresh_list_def)
  have m: "heap k_min 16 = Some (fresh_list\<lparr>sl_crefs := - 32768\<rparr>)"
    "\<not> sint (sl_crefs (fresh_list\<lparr>sl_crefs := - 32768\<rparr>) - 1) \<le> 0"
    by (simp_all add: k_min_def)
  have w: "(- 32769 :: 16 word) = 32767"
    by simp
  note t = net_releaselist_frees_at_zero [of k_task 16 fresh_list k_boot 16 "[]" cfg4]
  note u = net_releaselist_frees_at_zero [of k_min 16 "fresh_list\<lparr>sl_crefs := - 32768\<rparr>"]
  from t a c have "net_releaselist (Some 16) k_task =
        Inr (OK, k_task\<lparr>heap := (heap k_task)(16 := None),
                       calls := calls k_task @ [IRQSAVE, IRQRESTORE, SEM_DESTROY 16, SCHED_FREE 16]\<rparr>)"
    and "sint (sl_crefs fresh_list - 1) = sint (sl_crefs fresh_list) - 1"
    by simp_all
  moreover from u m have "net_releaselist (Some 16) k_min =
        Inr (OK, k_min\<lparr>heap := (heap k_min)(16 \<mapsto>
                         fresh_list\<lparr>sl_crefs := - 32768\<rparr>\<lparr>sl_crefs := - 32768 - 1\<rparr>),
                      calls := calls k_min @ [IRQSAVE, IRQRESTORE]\<rparr>)"
    by simp
  then have "net_releaselist (Some 16) (k_task\<lparr>heap := [16 \<mapsto> fresh_list\<lparr>sl_crefs := - 32768\<rparr>]\<rparr>) =
        Inr (OK, k_task\<lparr>heap := [16 \<mapsto> fresh_list\<lparr>sl_crefs := 32767\<rparr>],
                       calls := [IRQSAVE, IRQRESTORE]\<rparr>)"
    by (simp add: k_min_def k_task_def w)
  moreover from t b have "\<exists>k1 k2 k3 k4 k5 k6.
           net_alloclist cfg4 k_boot = (Some 16, k1)
           \<and> net_addreflist (Some 16) k1 = Inr (OK, k2)
           \<and> net_addreflist (Some 16) k2 = Inr (OK, k3)
           \<and> net_releaselist (Some 16) k3 = Inr (OK, k4)
           \<and> map_option sl_crefs (heap k4 16) = Some 2
           \<and> net_releaselist (Some 16) k4 = Inr (OK, k5)
           \<and> map_option sl_crefs (heap k5 16) = Some 1
           \<and> net_releaselist (Some 16) k5 = Inr (OK, k6)
           \<and> heap k6 16 = None"
    by blast
  ultimately show ?thesis using a b by blast
qed

subsection \<open>Allocation order\<close>

text \<open>
  C2. Whenever \<^verbatim>\<open>sockfd_allocate\<close> succeeds (it returns a value other than
  \<^verbatim>\<open>ERROR\<close>), the caller has a socket list, and the descriptor returned is \<open>j\<close> plus
  the base offset, where slot \<open>j\<close> has reference count 0 and every slot below \<open>j\<close> has a
  nonzero count: the scan goes upward from index 0 and takes the lowest free slot.
  Conversely, when the lowest free slot is \<open>j\<close> and the semaphore is eventually taken,
  the call returns \<open>j\<close> plus the base offset.
\<close>

theorem sockfd_allocate_lowest_free:
  "(sockfd_allocate cfg k = Some (Inr (fd, k')) \<and> fd \<noteq> ERROR \<longrightarrow>
      (\<exists>a sl j. sched_getsockets k = Some a \<and> heap k a = Some sl
         \<and> j < CONFIG_NSOCKET_DESCRIPTORS cfg
         \<and> s_crefs (sl_sockets sl ! j) = 0
         \<and> (\<forall>m < j. s_crefs (sl_sockets sl ! m) \<noteq> 0)
         \<and> fd = int j + SOCKFD_OFFSET cfg))
   \<and> (sched_getsockets k = Some a \<and> heap k a = Some sl
        \<and> acquires_after n (sem_script k) (sem_waits k)
        \<and> j < CONFIG_NSOCKET_DESCRIPTORS cfg
        \<and> s_crefs (sl_sockets sl ! j) = 0
        \<and> (\<forall>m < j. s_crefs (sl_sockets sl ! m) \<noteq> 0) \<longrightarrow>
          (\<exists>k''. sockfd_allocate cfg k = Some (Inr (int j + SOCKFD_OFFSET cfg, k''))))"
proof (intro conjI impI)
  assume "sockfd_allocate cfg k = Some (Inr (fd, k')) \<and> fd \<noteq> ERROR"
  then have run: "sockfd_allocate cfg k = Some (Inr (fd, k'))" and ok: "fd \<noteq> ERROR"
    by simp_all
  from run show "\<exists>a sl j. sched_getsockets k = Some a \<and> heap k a = Some sl
         \<and> j < CONFIG_NSOCKET_DESCRIPTORS cfg
         \<and> s_crefs (sl_sockets sl ! j) = 0
         \<and> (\<forall>m < j. s_crefs (sl_sockets sl ! m) \<noteq> 0)
         \<and> fd = int j + SOCKFD_OFFSET cfg"
  proof (cases rule: sockfd_allocate_cases)
    case no_list
    with ok show ?thesis by simp
  next
    case (dangling a n)
    with ok show ?thesis by simp
  next
    case (full a sl n)
    with ok show ?thesis by simp
  next
    case (found a sl n j)
    then show ?thesis
      by (auto simp: sched_getsockets_def)
  qed
next
  assume "sched_getsockets k = Some a \<and> heap k a = Some sl
        \<and> acquires_after n (sem_script k) (sem_waits k)
        \<and> j < CONFIG_NSOCKET_DESCRIPTORS cfg
        \<and> s_crefs (sl_sockets sl ! j) = 0
        \<and> (\<forall>m < j. s_crefs (sl_sockets sl ! m) \<noteq> 0)"
  then have "sockfd_allocate cfg k =
           Some (Inr (int j + SOCKFD_OFFSET cfg,
                      net_semgive a (update_sock (a, j) (\<lambda>_. zero_socket\<lparr>s_crefs := 1\<rparr>)
                                       (semtaken a n k))))"
    by (intro sockfd_allocate_found [where sl = sl]) (simp_all add: sched_getsockets_def)
  then show "\<exists>k''. sockfd_allocate cfg k = Some (Inr (int j + SOCKFD_OFFSET cfg, k''))"
    by blast
qed

lemma k_busy_facts:
  "sched_getsockets k_busy = Some 16" "heap k_busy 16 = Some busy_list"
  "acquires_after 0 (sem_script k_busy) (sem_waits k_busy)"
  "s_crefs (sl_sockets busy_list ! 2) = 0"
  "\<forall>m < 2. s_crefs (sl_sockets busy_list ! m) \<noteq> 0"
  "CONFIG_NSOCKET_DESCRIPTORS cfg4 = 4" "SOCKFD_OFFSET cfg4 = 8"
  by (simp_all add: k_busy_def k_task_def busy_list_def sched_getsockets_def cfg4_def
      zero_socket_def less_Suc_eq numeral_2_eq_2)

theorem sockfd_allocate_lowest_free_witness:
  "(\<exists>k'. sockfd_allocate cfg4 k_busy = Some (Inr (10, k')))
   \<and> s_crefs (sl_sockets busy_list ! 2) = 0
   \<and> s_crefs (sl_sockets busy_list ! 0) \<noteq> 0
   \<and> s_crefs (sl_sockets busy_list ! 1) \<noteq> 0"
proof -
  have "\<exists>k''. sockfd_allocate cfg4 k_busy = Some (Inr (int 2 + SOCKFD_OFFSET cfg4, k''))"
    using sockfd_allocate_lowest_free [of cfg4 k_busy 0 k_busy 16 busy_list 0 2] k_busy_facts
    by simp
  then obtain k' where run: "sockfd_allocate cfg4 k_busy = Some (Inr (10, k'))"
    by (auto simp: k_busy_facts)
  have "10 \<noteq> ERROR" by (simp add: ERROR_def)
  with run sockfd_allocate_lowest_free [of cfg4 k_busy 10 k' 16 busy_list 0 2]
  have "\<exists>a sl j. sched_getsockets k_busy = Some a \<and> heap k_busy a = Some sl
         \<and> j < CONFIG_NSOCKET_DESCRIPTORS cfg4
         \<and> s_crefs (sl_sockets sl ! j) = 0
         \<and> (\<forall>m < j. s_crefs (sl_sockets sl ! m) \<noteq> 0)
         \<and> 10 = int j + SOCKFD_OFFSET cfg4"
    by blast
  with run k_busy_facts show ?thesis
    by (auto simp: busy_list_def)
qed

subsection \<open>Failures of allocation\<close>






subsection \<open>Releasing a descriptor\<close>

lemma heap_update_sock_semtaken:
  assumes "heap k a = Some sl"
  shows "heap (update_sock (a, i) f (semtaken a n k)) =
         (heap k)(a \<mapsto> sl\<lparr>sl_sockets := (sl_sockets sl)[i := f (sl_sockets sl ! i)]\<rparr>)"
proof -
  have "heap (semtaken a n k) a = Some sl"
    using assms by simp
  from heap_update_sock [OF this] show ?thesis
    by simp
qed

text \<open>
  C3. For a descriptor in range whose slot has a reference count greater than 1,
  \<^verbatim>\<open>sockfd_release\<close> decrements the count by exactly one and changes nothing else in
  the list; the slot stays allocated: \<^verbatim>\<open>sockfd_socket\<close> still resolves the descriptor,
  and the count is nonzero. For a slot with count 1 or 0 (or any count not above 1),
  the slot is all zero afterwards, hence free, and when the slots below it are in use
  the next \<^verbatim>\<open>sockfd_allocate\<close> returns this very descriptor.
\<close>

theorem sockfd_release_count:
  fixes cfg sockfd k a sl n n'
  defines "i \<equiv> nat (sockfd - SOCKFD_OFFSET cfg)"
  assumes "0 \<le> sockfd - SOCKFD_OFFSET cfg"
    and "sockfd - SOCKFD_OFFSET cfg < int (CONFIG_NSOCKET_DESCRIPTORS cfg)"
    and "sched_getsockets k = Some a" and "heap k a = Some sl"
    and "length (sl_sockets sl) = CONFIG_NSOCKET_DESCRIPTORS cfg"
    and "acquires_after n (sem_script k) (sem_waits k)"
  shows "\<exists>k' sl'. sockfd_release cfg sockfd k = Some (Inr k')
      \<and> heap k' a = Some sl' \<and> sched_getsockets k' = Some a
      \<and> sl_crefs sl' = sl_crefs sl \<and> length (sl_sockets sl') = length (sl_sockets sl)
      \<and> (\<forall>m. m \<noteq> i \<longrightarrow> sl_sockets sl' ! m = sl_sockets sl ! m)
      \<and> (1 < s_crefs (sl_sockets sl ! i) \<longrightarrow>
            sl_sockets sl' ! i = (sl_sockets sl ! i)\<lparr>s_crefs := s_crefs (sl_sockets sl ! i) - 1\<rparr>
            \<and> s_crefs (sl_sockets sl' ! i) \<noteq> 0
            \<and> fst (sockfd_socket cfg sockfd k') = Some (a, i))
      \<and> (s_crefs (sl_sockets sl ! i) \<le> 1 \<longrightarrow>
            sl_sockets sl' ! i = zero_socket
            \<and> ((\<forall>m < i. s_crefs (sl_sockets sl ! m) \<noteq> 0)
                 \<and> acquires_after n' (sem_script k) (sem_waits k + Suc n) \<longrightarrow>
                   (\<exists>k''. sockfd_allocate cfg k' = Some (Inr (sockfd, k'')))))"
proof -
  define k' where "k' = net_semgive a (update_sock (a, i) release_slot (semtaken a n k))"
  define sl' where "sl' = sl\<lparr>sl_sockets := (sl_sockets sl)[i := release_slot (sl_sockets sl ! i)]\<rparr>"
  have a: "task_sockets k = Some a"
    using assms(4) by (simp add: sched_getsockets_def)
  have i: "i < length (sl_sockets sl)" "i < CONFIG_NSOCKET_DESCRIPTORS cfg"
    and fd: "sockfd = int i + SOCKFD_OFFSET cfg"
    using assms(2,3,6) by (simp_all add: i_def)
  have run: "sockfd_release cfg sockfd k = Some (Inr k')"
    unfolding k'_def i_def by (rule sockfd_release_slot [OF assms(2,3) a assms(5,7)])
  have h': "heap k' a = Some sl'"
    by (simp add: k'_def sl'_def heap_update_sock_semtaken [OF assms(5)])
  have t': "task_sockets k' = Some a"
    by (simp add: k'_def a)
  have frame: "sl_crefs sl' = sl_crefs sl" "length (sl_sockets sl') = length (sl_sockets sl)"
    "\<forall>m. m \<noteq> i \<longrightarrow> sl_sockets sl' ! m = sl_sockets sl ! m"
    by (simp_all add: sl'_def)
  have slot: "sl_sockets sl' ! i = release_slot (sl_sockets sl ! i)"
    using i by (simp add: sl'_def)
  have shared: "sl_sockets sl' ! i = (sl_sockets sl ! i)\<lparr>s_crefs := s_crefs (sl_sockets sl ! i) - 1\<rparr>
            \<and> s_crefs (sl_sockets sl' ! i) \<noteq> 0
            \<and> fst (sockfd_socket cfg sockfd k') = Some (a, i)"
    if "1 < s_crefs (sl_sockets sl ! i)"
  proof -
    have "fst (sockfd_socket cfg sockfd k') = Some (a, i)"
      using assms(2,3) t' by (simp add: sockfd_socket_def sched_getsockets_def i_def)
    with that show ?thesis
      by (simp add: slot release_slot_def)
  qed
  have last: "sl_sockets sl' ! i = zero_socket
            \<and> ((\<forall>m < i. s_crefs (sl_sockets sl ! m) \<noteq> 0)
                 \<and> acquires_after n' (sem_script k) (sem_waits k + Suc n) \<longrightarrow>
                   (\<exists>k''. sockfd_allocate cfg k' = Some (Inr (sockfd, k''))))"
    if le: "s_crefs (sl_sockets sl ! i) \<le> 1"
  proof (intro conjI impI)
    from le show z: "sl_sockets sl' ! i = zero_socket"
      by (simp add: slot release_slot_def)
    assume "(\<forall>m < i. s_crefs (sl_sockets sl ! m) \<noteq> 0)
                 \<and> acquires_after n' (sem_script k) (sem_waits k + Suc n)"
    then have below: "\<forall>m < i. s_crefs (sl_sockets sl ! m) \<noteq> 0"
      and n': "acquires_after n' (sem_script k') (sem_waits k')"
      by (simp_all add: k'_def)
    from below frame(3) have below': "\<forall>m < i. s_crefs (sl_sockets sl' ! m) \<noteq> 0"
      by simp
    have free: "s_crefs (sl_sockets sl' ! i) = 0"
      by (simp add: z zero_socket_def)
    from sockfd_allocate_found [OF t' h' n' i(2) free below']
    show "\<exists>k''. sockfd_allocate cfg k' = Some (Inr (sockfd, k''))"
      by (simp add: fd)
  qed
  from run h' t' frame shared last show ?thesis
    unfolding sched_getsockets_def by blast
qed

lemma k_busy_release_facts:
  "sched_getsockets k_busy = Some 16" "heap k_busy 16 = Some busy_list"
  "length (sl_sockets busy_list) = CONFIG_NSOCKET_DESCRIPTORS cfg4"
  "acquires_after 0 (sem_script k_busy) (sem_waits k_busy)"
  by (simp_all add: k_busy_def k_task_def busy_list_def sched_getsockets_def cfg4_def)

theorem sockfd_release_count_witness:
  "(\<exists>k' sl'. sockfd_release cfg4 9 k_busy = Some (Inr k') \<and> heap k' 16 = Some sl'
       \<and> sl_sockets sl' ! 1 = \<lparr>s_crefs = 1, s_conn = 6\<rparr>
       \<and> fst (sockfd_socket cfg4 9 k') = Some (16, 1))
   \<and> (\<exists>k' sl'. sockfd_release cfg4 8 k_busy = Some (Inr k') \<and> heap k' 16 = Some sl'
       \<and> sl_sockets sl' ! 0 = zero_socket
       \<and> (\<exists>k''. sockfd_allocate cfg4 k' = Some (Inr (8, k''))))"
proof
  have r: "0 \<le> 9 - SOCKFD_OFFSET cfg4"
    "9 - SOCKFD_OFFSET cfg4 < int (CONFIG_NSOCKET_DESCRIPTORS cfg4)"
    and i: "nat (9 - SOCKFD_OFFSET cfg4) = 1"
    and s: "sl_sockets busy_list ! Suc 0 = \<lparr>s_crefs = 2, s_conn = 6\<rparr>"
    by (simp_all add: cfg4_def busy_list_def)
  from sockfd_release_count [OF r k_busy_release_facts]
  obtain k' sl' where "sockfd_release cfg4 9 k_busy = Some (Inr k')" "heap k' 16 = Some sl'"
    and "1 < s_crefs (sl_sockets busy_list ! 1) \<longrightarrow>
            sl_sockets sl' ! 1 = (sl_sockets busy_list ! 1)\<lparr>s_crefs := s_crefs (sl_sockets busy_list ! 1) - 1\<rparr>
            \<and> s_crefs (sl_sockets sl' ! 1) \<noteq> 0
            \<and> fst (sockfd_socket cfg4 9 k') = Some (16, 1)"
    unfolding i by blast
  then show "\<exists>k' sl'. sockfd_release cfg4 9 k_busy = Some (Inr k') \<and> heap k' 16 = Some sl'
       \<and> sl_sockets sl' ! 1 = \<lparr>s_crefs = 1, s_conn = 6\<rparr>
       \<and> fst (sockfd_socket cfg4 9 k') = Some (16, 1)"
    by (simp add: s)
next
  have r: "0 \<le> 8 - SOCKFD_OFFSET cfg4"
    "8 - SOCKFD_OFFSET cfg4 < int (CONFIG_NSOCKET_DESCRIPTORS cfg4)"
    and i: "nat (8 - SOCKFD_OFFSET cfg4) = 0"
    and s: "sl_sockets busy_list ! 0 = \<lparr>s_crefs = 1, s_conn = 5\<rparr>"
    and n': "acquires_after 0 (sem_script k_busy) (sem_waits k_busy + Suc 0)"
    by (simp_all add: cfg4_def busy_list_def k_busy_def k_task_def)
  from sockfd_release_count [where n' = 0, OF r k_busy_release_facts]
  obtain k' sl' where "sockfd_release cfg4 8 k_busy = Some (Inr k')" "heap k' 16 = Some sl'"
    and "s_crefs (sl_sockets busy_list ! 0) \<le> 1 \<longrightarrow>
            sl_sockets sl' ! 0 = zero_socket
            \<and> ((\<forall>m < 0. s_crefs (sl_sockets busy_list ! m) \<noteq> 0)
                 \<and> acquires_after 0 (sem_script k_busy) (sem_waits k_busy + Suc 0) \<longrightarrow>
                   (\<exists>k''. sockfd_allocate cfg4 k' = Some (Inr (8, k''))))"
    unfolding i by blast
  with n' show "\<exists>k' sl'. sockfd_release cfg4 8 k_busy = Some (Inr k') \<and> heap k' 16 = Some sl'
       \<and> sl_sockets sl' ! 0 = zero_socket
       \<and> (\<exists>k''. sockfd_allocate cfg4 k' = Some (Inr (8, k'')))"
    by (simp add: s)
qed

subsection \<open>Releasing what is not allocated\<close>

text \<open>
  C6. \<^verbatim>\<open>sockfd_release\<close> of a descriptor out of range returns without a fault and
  leaves the whole state as it was. For a descriptor in range whose slot is already free
  (reference count 0, and hence all zero by the invariant of the slots), it returns
  without a fault once it holds the semaphore, and the state it returns differs from the
  state it was called in only by the mutex being taken and given back: the socket lists,
  the task's list pointer and the allocator are as they were, the calls made are the
  waits for the mutex followed by the one \<^verbatim>\<open>sem_post\<close> that releases it, and
  \<^verbatim>\<open>errno\<close> is touched only by an interrupted wait.
\<close>

theorem sockfd_release_noop:
  "(sockfd - SOCKFD_OFFSET cfg < 0
      \<or> int (CONFIG_NSOCKET_DESCRIPTORS cfg) \<le> sockfd - SOCKFD_OFFSET cfg \<longrightarrow>
        sockfd_release cfg sockfd k = Some (Inr k))
   \<and> (0 \<le> sockfd - SOCKFD_OFFSET cfg
        \<and> sockfd - SOCKFD_OFFSET cfg < int (CONFIG_NSOCKET_DESCRIPTORS cfg)
        \<and> sched_getsockets k = Some a \<and> heap k a = Some sl
        \<and> length (sl_sockets sl) = CONFIG_NSOCKET_DESCRIPTORS cfg
        \<and> free_slots_zeroed sl
        \<and> s_crefs (sl_sockets sl ! nat (sockfd - SOCKFD_OFFSET cfg)) = 0
        \<and> acquires_after n (sem_script k) (sem_waits k) \<longrightarrow>
          sockfd_release cfg sockfd k =
            Some (Inr (k\<lparr>sem_waits := sem_waits k + Suc n,
                         errno := (if n = 0 then errno k else EINTR),
                         calls := calls k @ replicate (Suc n) (SEM_WAIT a) @ [SEM_POST a]\<rparr>)))"
proof (intro conjI impI)
  assume "sockfd - SOCKFD_OFFSET cfg < 0
      \<or> int (CONFIG_NSOCKET_DESCRIPTORS cfg) \<le> sockfd - SOCKFD_OFFSET cfg"
  then show "sockfd_release cfg sockfd k = Some (Inr k)"
    by (rule sockfd_release_out_of_range)
next
  define i where "i = nat (sockfd - SOCKFD_OFFSET cfg)"
  assume "0 \<le> sockfd - SOCKFD_OFFSET cfg
        \<and> sockfd - SOCKFD_OFFSET cfg < int (CONFIG_NSOCKET_DESCRIPTORS cfg)
        \<and> sched_getsockets k = Some a \<and> heap k a = Some sl
        \<and> length (sl_sockets sl) = CONFIG_NSOCKET_DESCRIPTORS cfg
        \<and> free_slots_zeroed sl
        \<and> s_crefs (sl_sockets sl ! nat (sockfd - SOCKFD_OFFSET cfg)) = 0
        \<and> acquires_after n (sem_script k) (sem_waits k)"
  then have range: "0 \<le> sockfd - SOCKFD_OFFSET cfg"
      "sockfd - SOCKFD_OFFSET cfg < int (CONFIG_NSOCKET_DESCRIPTORS cfg)"
    and a: "task_sockets k = Some a" and sl: "heap k a = Some sl"
    and len: "length (sl_sockets sl) = CONFIG_NSOCKET_DESCRIPTORS cfg"
    and inv: "free_slots_zeroed sl"
    and free: "s_crefs (sl_sockets sl ! i) = 0"
    and n: "acquires_after n (sem_script k) (sem_waits k)"
    by (simp_all add: sched_getsockets_def i_def)
  from range len have "i < length (sl_sockets sl)"
    by (simp add: i_def)
  with inv free have "sl_sockets sl ! i = zero_socket"
    by (simp add: free_slots_zeroed_def)
  then have same: "release_slot (sl_sockets sl ! i) = sl_sockets sl ! i"
    by (simp add: release_slot_def zero_socket_def)
  have "heap (semtaken a n k) a = Some sl"
    using sl by simp
  from update_sock_same [where f = release_slot and i = i, OF this same]
  have "update_sock (a, i) release_slot (semtaken a n k) = semtaken a n k" .
  with sockfd_release_slot [OF range a sl n]
  have "sockfd_release cfg sockfd k = Some (Inr (net_semgive a (semtaken a n k)))"
    by (simp add: i_def)
  then show "sockfd_release cfg sockfd k =
            Some (Inr (k\<lparr>sem_waits := sem_waits k + Suc n,
                         errno := (if n = 0 then errno k else EINTR),
                         calls := calls k @ replicate (Suc n) (SEM_WAIT a) @ [SEM_POST a]\<rparr>))"
    by (simp only: net_semgive_semtaken)
qed

text \<open>The witness releases two descriptors out of range and the free descriptor 10, once
  with no interrupted wait and once after two.\<close>

theorem sockfd_release_noop_witness:
  "sockfd_release cfg4 12 k_busy = Some (Inr k_busy)
   \<and> sockfd_release cfg4 7 k_busy = Some (Inr k_busy)
   \<and> s_crefs (sl_sockets busy_list ! 2) = 0
   \<and> sockfd_release cfg4 10 k_busy =
       Some (Inr (k_busy\<lparr>sem_waits := 1, calls := [SEM_WAIT 16, SEM_POST 16]\<rparr>))
   \<and> sockfd_release cfg4 10 k_signalled =
       Some (Inr (k_signalled\<lparr>sem_waits := 3, errno := EINTR,
                    calls := [SEM_WAIT 16, SEM_WAIT 16, SEM_WAIT 16, SEM_POST 16]\<rparr>))"
proof -
  have pre: "0 \<le> 10 - SOCKFD_OFFSET cfg4
        \<and> 10 - SOCKFD_OFFSET cfg4 < int (CONFIG_NSOCKET_DESCRIPTORS cfg4)
        \<and> sched_getsockets k_busy = Some 16 \<and> heap k_busy 16 = Some busy_list
        \<and> length (sl_sockets busy_list) = CONFIG_NSOCKET_DESCRIPTORS cfg4
        \<and> free_slots_zeroed busy_list
        \<and> s_crefs (sl_sockets busy_list ! nat (10 - SOCKFD_OFFSET cfg4)) = 0
        \<and> acquires_after 0 (sem_script k_busy) (sem_waits k_busy)"
    by (simp add: cfg4_def k_busy_def k_task_def sched_getsockets_def busy_list_def
        free_slots_zeroed_def zero_socket_def)
  have pre_sig: "0 \<le> 10 - SOCKFD_OFFSET cfg4
        \<and> 10 - SOCKFD_OFFSET cfg4 < int (CONFIG_NSOCKET_DESCRIPTORS cfg4)
        \<and> sched_getsockets k_signalled = Some 16 \<and> heap k_signalled 16 = Some busy_list
        \<and> length (sl_sockets busy_list) = CONFIG_NSOCKET_DESCRIPTORS cfg4
        \<and> free_slots_zeroed busy_list
        \<and> s_crefs (sl_sockets busy_list ! nat (10 - SOCKFD_OFFSET cfg4)) = 0
        \<and> acquires_after (Suc (Suc 0)) (sem_script k_signalled) (sem_waits k_signalled)"
    by (simp add: cfg4_def k_signalled_def k_busy_def k_task_def sched_getsockets_def
        busy_list_def free_slots_zeroed_def zero_socket_def twice_interrupted_def)
  have "12 - SOCKFD_OFFSET cfg4 < 0
      \<or> int (CONFIG_NSOCKET_DESCRIPTORS cfg4) \<le> 12 - SOCKFD_OFFSET cfg4"
    and "7 - SOCKFD_OFFSET cfg4 < 0
      \<or> int (CONFIG_NSOCKET_DESCRIPTORS cfg4) \<le> 7 - SOCKFD_OFFSET cfg4"
    by (simp_all add: cfg4_def)
  with sockfd_release_noop [of 12 cfg4 k_busy] sockfd_release_noop [of 7 cfg4 k_busy]
  have "sockfd_release cfg4 12 k_busy = Some (Inr k_busy)"
    and "sockfd_release cfg4 7 k_busy = Some (Inr k_busy)"
    by blast+
  moreover from sockfd_release_noop [of 10 cfg4 k_busy 16 busy_list 0] pre
  have "sockfd_release cfg4 10 k_busy =
       Some (Inr (k_busy\<lparr>sem_waits := sem_waits k_busy + Suc 0,
                    errno := (if (0::nat) = 0 then errno k_busy else EINTR),
                    calls := calls k_busy @ replicate (Suc 0) (SEM_WAIT 16) @ [SEM_POST 16]\<rparr>))"
    by blast
  then have "sockfd_release cfg4 10 k_busy =
       Some (Inr (k_busy\<lparr>sem_waits := 1, calls := [SEM_WAIT 16, SEM_POST 16]\<rparr>))"
    by (simp add: k_busy_def k_task_def)
  moreover from sockfd_release_noop [of 10 cfg4 k_signalled 16 busy_list "Suc (Suc 0)"] pre_sig
  have "sockfd_release cfg4 10 k_signalled =
       Some (Inr (k_signalled\<lparr>sem_waits := sem_waits k_signalled + Suc (Suc (Suc 0)),
                    errno := (if Suc (Suc 0) = 0 then errno k_signalled else EINTR),
                    calls := calls k_signalled @ replicate (Suc (Suc (Suc 0))) (SEM_WAIT 16)
                               @ [SEM_POST 16]\<rparr>))"
    by blast
  then have "sockfd_release cfg4 10 k_signalled =
       Some (Inr (k_signalled\<lparr>sem_waits := 3, errno := EINTR,
                    calls := [SEM_WAIT 16, SEM_WAIT 16, SEM_WAIT 16, SEM_POST 16]\<rparr>))"
    by (simp add: k_signalled_def k_busy_def k_task_def)
  moreover have "s_crefs (sl_sockets busy_list ! 2) = 0"
    by (simp add: busy_list_def zero_socket_def)
  ultimately show ?thesis by blast
qed

subsection \<open>The invariant of the slots\<close>

lemma lists_zeroed_iff:
  "lists_zeroed k \<longleftrightarrow> (\<forall>a sl. heap k a = Some sl \<longrightarrow> free_slots_zeroed sl)"
  by (auto simp: lists_zeroed_def ran_def)

lemma lists_zeroed_same:
  "lists_zeroed k \<Longrightarrow> heap k' = heap k \<Longrightarrow> lists_zeroed k'"
  by (simp add: lists_zeroed_def)

lemma lists_zeroed_store:
  "lists_zeroed k \<Longrightarrow> heap k' = (heap k)(a \<mapsto> sl) \<Longrightarrow> free_slots_zeroed sl \<Longrightarrow>
   lists_zeroed k'"
  by (simp add: lists_zeroed_iff)

lemma lists_zeroed_free:
  "lists_zeroed k \<Longrightarrow> heap k' = (heap k)(a := None) \<Longrightarrow> lists_zeroed k'"
  by (simp add: lists_zeroed_iff)

lemma free_slots_zeroed_update:
  assumes "free_slots_zeroed sl" and "s_crefs s = 0 \<longrightarrow> s = zero_socket"
  shows "free_slots_zeroed (sl\<lparr>sl_sockets := (sl_sockets sl)[i := s]\<rparr>)"
proof -
  have "set ((sl_sockets sl)[i := s]) \<subseteq> insert s (set (sl_sockets sl))"
    by (rule set_update_subset_insert)
  with assms show ?thesis
    unfolding free_slots_zeroed_def by auto
qed

lemma free_slots_zeroed_crefs:
  "free_slots_zeroed sl \<Longrightarrow> free_slots_zeroed (sl\<lparr>sl_crefs := c\<rparr>)"
  by (simp add: free_slots_zeroed_def)

lemma free_slots_zeroed_new:
  "free_slots_zeroed ((zero_socketlist cfg)\<lparr>sl_crefs := 1\<rparr>)"
  by (simp add: free_slots_zeroed_def zero_socketlist_def)

lemma release_slot_zeroed:
  "s_crefs (release_slot s) = 0 \<longrightarrow> release_slot s = zero_socket"
  by (simp add: release_slot_def)

lemma net_alloclist_zeroed:
  assumes "lists_zeroed k"
  shows "lists_zeroed (snd (net_alloclist cfg k))"
proof (cases "mem_pool k")
  case Nil
  then show ?thesis
    using assms by (simp add: net_alloclist_None lists_zeroed_def)
next
  case (Cons a rest)
  show ?thesis
    by (rule lists_zeroed_store [OF assms _ free_slots_zeroed_new [of cfg], of _ a])
      (simp add: net_alloclist_Some [OF Cons])
qed

lemma net_addreflist_zeroed:
  assumes "lists_zeroed k" and "net_addreflist l k = Inr (r, k')"
  shows "lists_zeroed k'"
proof (cases l)
  case None
  with assms show ?thesis by (simp add: net_addreflist_def)
next
  case (Some a)
  show ?thesis
  proof (cases "heap k a")
    case None
    with assms(2) Some show ?thesis
      by (simp add: net_addreflist_def irqsave_def log_call_def)
  next
    case sl: (Some sl)
    from assms(1) sl have "free_slots_zeroed sl"
      by (simp add: lists_zeroed_iff)
    then have z: "free_slots_zeroed (sl\<lparr>sl_crefs := sl_crefs sl + 1\<rparr>)"
      by (rule free_slots_zeroed_crefs)
    from assms(2) Some net_addreflist_Some [OF sl]
    have "heap k' = (heap k)(a \<mapsto> sl\<lparr>sl_crefs := sl_crefs sl + 1\<rparr>)"
      by auto
    from lists_zeroed_store [OF assms(1) this z] show ?thesis .
  qed
qed

lemma net_releaselist_zeroed:
  assumes "lists_zeroed k" and "net_releaselist l k = Inr (r, k')"
  shows "lists_zeroed k'"
proof (cases l)
  case None
  with assms show ?thesis by (simp add: net_releaselist_def)
next
  case (Some a)
  show ?thesis
  proof (cases "heap k a")
    case None
    with assms(2) Some show ?thesis
      by (simp add: net_releaselist_def irqsave_def log_call_def)
  next
    case sl: (Some sl)
    from assms(1) sl have "free_slots_zeroed sl"
      by (simp add: lists_zeroed_iff)
    then have z: "free_slots_zeroed (sl\<lparr>sl_crefs := sl_crefs sl - 1\<rparr>)"
      by (rule free_slots_zeroed_crefs)
    show ?thesis
    proof (cases "sint (sl_crefs sl - 1) \<le> 0")
      case True
      from assms(2) Some net_releaselist_frees [OF sl True]
      have "heap k' = (heap k)(a := None)"
        by auto
      from lists_zeroed_free [OF assms(1) this] show ?thesis .
    next
      case False
      then have "0 < sint (sl_crefs sl - 1)" by simp
      from assms(2) Some net_releaselist_keeps [OF sl this]
      have "heap k' = (heap k)(a \<mapsto> sl\<lparr>sl_crefs := sl_crefs sl - 1\<rparr>)"
        by auto
      from lists_zeroed_store [OF assms(1) this z] show ?thesis .
    qed
  qed
qed

lemma sockfd_allocate_zeroed:
  assumes "lists_zeroed k" and "sockfd_allocate cfg k = Some (Inr (fd, k'))"
  shows "lists_zeroed k'"
  using assms(2)
proof (cases rule: sockfd_allocate_cases)
  case no_list
  with assms(1) show ?thesis by simp
next
  case (dangling a n)
  with assms(1) show ?thesis by (simp add: lists_zeroed_def)
next
  case (full a sl n)
  with assms(1) show ?thesis by (simp add: lists_zeroed_def)
next
  case (found a sl n j)
  from assms(1) found(2) have "free_slots_zeroed sl"
    by (simp add: lists_zeroed_iff)
  then have z: "free_slots_zeroed (sl\<lparr>sl_sockets := (sl_sockets sl)[j := zero_socket\<lparr>s_crefs := 1\<rparr>]\<rparr>)"
    by (rule free_slots_zeroed_update) simp
  have "heap k' = (heap k)(a \<mapsto> sl\<lparr>sl_sockets := (sl_sockets sl)[j := zero_socket\<lparr>s_crefs := 1\<rparr>]\<rparr>)"
    by (simp add: found(8) heap_update_sock_semtaken [OF found(2)])
  from lists_zeroed_store [OF assms(1) this z] show ?thesis .
qed

lemma sockfd_release_zeroed:
  assumes "lists_zeroed k" and "sockfd_release cfg sockfd k = Some (Inr k')"
  shows "lists_zeroed k'"
  using assms(2)
proof (cases rule: sockfd_release_cases)
  case noop
  with assms(1) show ?thesis by simp
next
  case (slot a sl n)
  define i where "i = nat (sockfd - SOCKFD_OFFSET cfg)"
  from assms(1) slot(4) have "free_slots_zeroed sl"
    by (simp add: lists_zeroed_iff)
  then have z: "free_slots_zeroed
      (sl\<lparr>sl_sockets := (sl_sockets sl)[i := release_slot (sl_sockets sl ! i)]\<rparr>)"
    using release_slot_zeroed by (rule free_slots_zeroed_update)
  have "heap k' = (heap k)(a \<mapsto>
      sl\<lparr>sl_sockets := (sl_sockets sl)[i := release_slot (sl_sockets sl ! i)]\<rparr>)"
    by (simp add: slot(6) heap_update_sock_semtaken [OF slot(4)] i_def)
  from lists_zeroed_store [OF assms(1) this z] show ?thesis .
qed

text \<open>
  C7. Every operation of the file preserves the invariant that a slot with reference
  count 0 is all zero, in every socket list: \<^verbatim>\<open>net_alloclist\<close>, \<^verbatim>\<open>net_addreflist\<close>,
  \<^verbatim>\<open>net_releaselist\<close>, \<^verbatim>\<open>sockfd_allocate\<close>, \<^verbatim>\<open>sockfd_release\<close> and
  \<^verbatim>\<open>sockfd_socket\<close>. And, whatever the state they are called in (the invariant is not
  assumed here): the list that \<^verbatim>\<open>net_alloclist\<close> creates has count 1 and all slots zero;
  the slot that \<^verbatim>\<open>sockfd_allocate\<close> hands out is all zero but for its count of 1, also
  when it held stale state before; and \<^verbatim>\<open>sockfd_release\<close> leaves the slot all zero when
  its count was not above 1.
\<close>

theorem free_slots_stay_zeroed:
  "(lists_zeroed k \<longrightarrow>
       lists_zeroed (snd (net_alloclist cfg k))
       \<and> (\<forall>r k'. net_addreflist l k = Inr (r, k') \<longrightarrow> lists_zeroed k')
       \<and> (\<forall>r k'. net_releaselist l k = Inr (r, k') \<longrightarrow> lists_zeroed k')
       \<and> (\<forall>fd k'. sockfd_allocate cfg k = Some (Inr (fd, k')) \<longrightarrow> lists_zeroed k')
       \<and> (\<forall>k'. sockfd_release cfg sockfd k = Some (Inr k') \<longrightarrow> lists_zeroed k')
       \<and> lists_zeroed (snd (sockfd_socket cfg sockfd k)))
   \<and> (\<forall>a. fst (net_alloclist cfg k) = Some a \<longrightarrow>
           heap (snd (net_alloclist cfg k)) a =
             Some \<lparr>sl_crefs = 1,
                   sl_sockets = replicate (CONFIG_NSOCKET_DESCRIPTORS cfg) zero_socket\<rparr>)
   \<and> (\<forall>a rest. mem_pool k = a # rest \<longrightarrow>
           fst (net_alloclist cfg k) = Some a
           \<and> heap (snd (net_alloclist cfg k)) a =
             Some \<lparr>sl_crefs = 1,
                   sl_sockets = replicate (CONFIG_NSOCKET_DESCRIPTORS cfg) zero_socket\<rparr>)
   \<and> (\<forall>fd k' a sl. sockfd_allocate cfg k = Some (Inr (fd, k')) \<and> fd \<noteq> ERROR
           \<and> sched_getsockets k = Some a \<and> heap k a = Some sl
           \<and> length (sl_sockets sl) = CONFIG_NSOCKET_DESCRIPTORS cfg \<longrightarrow>
             read_sock (a, nat (fd - SOCKFD_OFFSET cfg)) k' = Some (zero_socket\<lparr>s_crefs := 1\<rparr>))
   \<and> (\<forall>k' a sl. sockfd_release cfg sockfd k = Some (Inr k')
           \<and> 0 \<le> sockfd - SOCKFD_OFFSET cfg
           \<and> sockfd - SOCKFD_OFFSET cfg < int (CONFIG_NSOCKET_DESCRIPTORS cfg)
           \<and> sched_getsockets k = Some a \<and> heap k a = Some sl
           \<and> length (sl_sockets sl) = CONFIG_NSOCKET_DESCRIPTORS cfg
           \<and> s_crefs (sl_sockets sl ! nat (sockfd - SOCKFD_OFFSET cfg)) \<le> 1 \<longrightarrow>
             read_sock (a, nat (sockfd - SOCKFD_OFFSET cfg)) k' = Some zero_socket)"
proof -
  have preserved: "lists_zeroed (snd (net_alloclist cfg k))
       \<and> (\<forall>r k'. net_addreflist l k = Inr (r, k') \<longrightarrow> lists_zeroed k')
       \<and> (\<forall>r k'. net_releaselist l k = Inr (r, k') \<longrightarrow> lists_zeroed k')
       \<and> (\<forall>fd k'. sockfd_allocate cfg k = Some (Inr (fd, k')) \<longrightarrow> lists_zeroed k')
       \<and> (\<forall>k'. sockfd_release cfg sockfd k = Some (Inr k') \<longrightarrow> lists_zeroed k')
       \<and> lists_zeroed (snd (sockfd_socket cfg sockfd k))"
    if inv: "lists_zeroed k"
  proof (intro conjI allI impI)
    show "lists_zeroed (snd (net_alloclist cfg k))"
      using inv by (rule net_alloclist_zeroed)
  next
    fix r k' assume "net_addreflist l k = Inr (r, k')"
    with inv show "lists_zeroed k'" by (rule net_addreflist_zeroed)
  next
    fix r k' assume "net_releaselist l k = Inr (r, k')"
    with inv show "lists_zeroed k'" by (rule net_releaselist_zeroed)
  next
    fix fd k' assume "sockfd_allocate cfg k = Some (Inr (fd, k'))"
    with inv show "lists_zeroed k'" by (rule sockfd_allocate_zeroed)
  next
    fix k' assume "sockfd_release cfg sockfd k = Some (Inr k')"
    with inv show "lists_zeroed k'" by (rule sockfd_release_zeroed)
  next
    show "lists_zeroed (snd (sockfd_socket cfg sockfd k))"
      using inv by (simp add: sockfd_socket_def Let_def split: option.splits)
  qed
  have created: "(\<forall>a. fst (net_alloclist cfg k) = Some a \<longrightarrow>
           heap (snd (net_alloclist cfg k)) a =
             Some \<lparr>sl_crefs = 1,
                   sl_sockets = replicate (CONFIG_NSOCKET_DESCRIPTORS cfg) zero_socket\<rparr>)"
  proof (intro allI impI)
    fix a assume "fst (net_alloclist cfg k) = Some a"
    then show "heap (snd (net_alloclist cfg k)) a =
             Some \<lparr>sl_crefs = 1,
                   sl_sockets = replicate (CONFIG_NSOCKET_DESCRIPTORS cfg) zero_socket\<rparr>"
      by (cases "mem_pool k")
        (simp_all add: net_alloclist_None net_alloclist_Some zero_socketlist_def)
  qed
  have creates: "(\<forall>a rest. mem_pool k = a # rest \<longrightarrow>
           fst (net_alloclist cfg k) = Some a
           \<and> heap (snd (net_alloclist cfg k)) a =
             Some \<lparr>sl_crefs = 1,
                   sl_sockets = replicate (CONFIG_NSOCKET_DESCRIPTORS cfg) zero_socket\<rparr>)"
    by (simp add: net_alloclist_Some zero_socketlist_def)
  have allocated: "(\<forall>fd k' a sl. sockfd_allocate cfg k = Some (Inr (fd, k')) \<and> fd \<noteq> ERROR
           \<and> sched_getsockets k = Some a \<and> heap k a = Some sl
           \<and> length (sl_sockets sl) = CONFIG_NSOCKET_DESCRIPTORS cfg \<longrightarrow>
             read_sock (a, nat (fd - SOCKFD_OFFSET cfg)) k' = Some (zero_socket\<lparr>s_crefs := 1\<rparr>))"
  proof (intro allI impI)
    fix fd k' a sl
    assume "sockfd_allocate cfg k = Some (Inr (fd, k')) \<and> fd \<noteq> ERROR
             \<and> sched_getsockets k = Some a \<and> heap k a = Some sl
             \<and> length (sl_sockets sl) = CONFIG_NSOCKET_DESCRIPTORS cfg"
    then have run: "sockfd_allocate cfg k = Some (Inr (fd, k'))" and ok: "fd \<noteq> ERROR"
      and a: "task_sockets k = Some a" and sl: "heap k a = Some sl"
      and len: "length (sl_sockets sl) = CONFIG_NSOCKET_DESCRIPTORS cfg"
      by (simp_all add: sched_getsockets_def)
    from run show "read_sock (a, nat (fd - SOCKFD_OFFSET cfg)) k' = Some (zero_socket\<lparr>s_crefs := 1\<rparr>)"
    proof (cases rule: sockfd_allocate_cases)
      case no_list
      with ok show ?thesis by simp
    next
      case (dangling b n)
      with ok show ?thesis by simp
    next
      case (full b sl0 n)
      with ok show ?thesis by simp
    next
      case (found b sl0 n j)
      with a sl have [simp]: "b = a" "sl0 = sl" by simp_all
      from found(4) len have "j < length (sl_sockets sl)" by simp
      then show ?thesis
        by (simp add: found(7,8) read_sock_def heap_update_sock_semtaken [OF sl])
    qed
  qed
  have released: "(\<forall>k' a sl. sockfd_release cfg sockfd k = Some (Inr k')
           \<and> 0 \<le> sockfd - SOCKFD_OFFSET cfg
           \<and> sockfd - SOCKFD_OFFSET cfg < int (CONFIG_NSOCKET_DESCRIPTORS cfg)
           \<and> sched_getsockets k = Some a \<and> heap k a = Some sl
           \<and> length (sl_sockets sl) = CONFIG_NSOCKET_DESCRIPTORS cfg
           \<and> s_crefs (sl_sockets sl ! nat (sockfd - SOCKFD_OFFSET cfg)) \<le> 1 \<longrightarrow>
             read_sock (a, nat (sockfd - SOCKFD_OFFSET cfg)) k' = Some zero_socket)"
  proof (intro allI impI)
    fix k' a sl
    assume "sockfd_release cfg sockfd k = Some (Inr k')
             \<and> 0 \<le> sockfd - SOCKFD_OFFSET cfg
             \<and> sockfd - SOCKFD_OFFSET cfg < int (CONFIG_NSOCKET_DESCRIPTORS cfg)
             \<and> sched_getsockets k = Some a \<and> heap k a = Some sl
             \<and> length (sl_sockets sl) = CONFIG_NSOCKET_DESCRIPTORS cfg
             \<and> s_crefs (sl_sockets sl ! nat (sockfd - SOCKFD_OFFSET cfg)) \<le> 1"
    then have run: "sockfd_release cfg sockfd k = Some (Inr k')"
      and range: "0 \<le> sockfd - SOCKFD_OFFSET cfg"
        "sockfd - SOCKFD_OFFSET cfg < int (CONFIG_NSOCKET_DESCRIPTORS cfg)"
      and a: "task_sockets k = Some a" and sl: "heap k a = Some sl"
      and len: "length (sl_sockets sl) = CONFIG_NSOCKET_DESCRIPTORS cfg"
      and le: "s_crefs (sl_sockets sl ! nat (sockfd - SOCKFD_OFFSET cfg)) \<le> 1"
      by (simp_all add: sched_getsockets_def)
    from run show "read_sock (a, nat (sockfd - SOCKFD_OFFSET cfg)) k' = Some zero_socket"
    proof (cases rule: sockfd_release_cases)
      case noop
      with range a show ?thesis by simp
    next
      case (slot b sl0 n)
      with a sl have [simp]: "b = a" "sl0 = sl" by simp_all
      from range len have "nat (sockfd - SOCKFD_OFFSET cfg) < length (sl_sockets sl)" by simp
      with le show ?thesis
        by (simp add: slot(6) read_sock_def heap_update_sock_semtaken [OF sl] release_slot_def)
    qed
  qed
  note rest = conjI [OF created conjI [OF creates conjI [OF allocated released]]]
  show ?thesis
  proof (rule conjI [OF _ rest], rule impI)
    assume "lists_zeroed k"
    then show "lists_zeroed (snd (net_alloclist cfg k))
       \<and> (\<forall>r k'. net_addreflist l k = Inr (r, k') \<longrightarrow> lists_zeroed k')
       \<and> (\<forall>r k'. net_releaselist l k = Inr (r, k') \<longrightarrow> lists_zeroed k')
       \<and> (\<forall>fd k'. sockfd_allocate cfg k = Some (Inr (fd, k')) \<longrightarrow> lists_zeroed k')
       \<and> (\<forall>k'. sockfd_release cfg sockfd k = Some (Inr k') \<longrightarrow> lists_zeroed k')
       \<and> lists_zeroed (snd (sockfd_socket cfg sockfd k))"
      by (rule preserved)
  qed
qed

lemma lists_zeroed_k_busy: "lists_zeroed k_busy"
  by (simp add: lists_zeroed_def k_busy_def k_task_def free_slots_zeroed_def busy_list_def
      zero_socket_def)

lemma lists_zeroed_k_boot: "lists_zeroed k_boot"
  by (simp add: lists_zeroed_def k_boot_def)

lemma k_stale_facts:
  "task_sockets k_stale = Some 16" "heap k_stale 16 = Some stale_list"
  "acquires_after 0 (sem_script k_stale) (sem_waits k_stale)"
  "(1::nat) < CONFIG_NSOCKET_DESCRIPTORS cfg4"
  "s_crefs (sl_sockets stale_list ! 1) = 0"
  "\<forall>m < 1. s_crefs (sl_sockets stale_list ! m) \<noteq> 0"
  "length (sl_sockets stale_list) = CONFIG_NSOCKET_DESCRIPTORS cfg4"
  by (simp_all add: k_stale_def k_task_def stale_list_def cfg4_def)

text \<open>The witness creates a list, allocates a free slot that holds stale state, and releases
  the last reference of a slot with connection state.\<close>

theorem free_slots_stay_zeroed_witness:
  "lists_zeroed k_boot
   \<and> fst (net_alloclist cfg4 k_boot) = Some 16
   \<and> heap (snd (net_alloclist cfg4 k_boot)) 16 =
       Some \<lparr>sl_crefs = 1, sl_sockets = replicate 4 zero_socket\<rparr>
   \<and> lists_zeroed (snd (net_alloclist cfg4 k_boot))
   \<and> read_sock (16, 1) k_stale = Some \<lparr>s_crefs = 0, s_conn = 9\<rparr>
   \<and> (\<exists>k'. sockfd_allocate cfg4 k_stale = Some (Inr (9, k'))
          \<and> read_sock (16, 1) k' = Some (zero_socket\<lparr>s_crefs := 1\<rparr>))
   \<and> lists_zeroed k_busy
   \<and> read_sock (16, 0) k_busy = Some \<lparr>s_crefs = 1, s_conn = 5\<rparr>
   \<and> (\<exists>k'. sockfd_release cfg4 8 k_busy = Some (Inr k')
          \<and> read_sock (16, 0) k' = Some zero_socket \<and> lists_zeroed k')"
proof -
  note boot = free_slots_stay_zeroed [of k_boot cfg4]
  note stale = free_slots_stay_zeroed [of k_stale cfg4]
  note busy = free_slots_stay_zeroed [of k_busy cfg4 _ 8]
  have pool: "mem_pool k_boot = 16 # []"
    by (simp add: k_boot_def)
  from boot pool have created: "fst (net_alloclist cfg4 k_boot) = Some 16"
    "heap (snd (net_alloclist cfg4 k_boot)) 16 =
       Some \<lparr>sl_crefs = 1,
             sl_sockets = replicate (CONFIG_NSOCKET_DESCRIPTORS cfg4) zero_socket\<rparr>"
    by blast+
  from boot lists_zeroed_k_boot have z1: "lists_zeroed (snd (net_alloclist cfg4 k_boot))"
    by blast
  from sockfd_allocate_found [OF k_stale_facts(1-6)]
  obtain k1 where run1: "sockfd_allocate cfg4 k_stale = Some (Inr (9, k1))"
    by (simp add: cfg4_def)
  have "9 \<noteq> ERROR" by (simp add: ERROR_def)
  with stale run1 k_stale_facts(1,2,7)
  have "read_sock (16, nat (9 - SOCKFD_OFFSET cfg4)) k1 = Some (zero_socket\<lparr>s_crefs := 1\<rparr>)"
    unfolding sched_getsockets_def by blast
  then have got: "read_sock (16, 1) k1 = Some (zero_socket\<lparr>s_crefs := 1\<rparr>)"
    by (simp add: cfg4_def)
  have r: "0 \<le> 8 - SOCKFD_OFFSET cfg4"
    "8 - SOCKFD_OFFSET cfg4 < int (CONFIG_NSOCKET_DESCRIPTORS cfg4)"
    and t: "task_sockets k_busy = Some 16"
    and len: "length (sl_sockets busy_list) = CONFIG_NSOCKET_DESCRIPTORS cfg4"
    and le: "s_crefs (sl_sockets busy_list ! nat (8 - SOCKFD_OFFSET cfg4)) \<le> 1"
    by (simp_all add: cfg4_def k_busy_def k_task_def busy_list_def)
  from sockfd_release_slot [OF r t k_busy_facts(2,3)]
  obtain k2 where run2: "sockfd_release cfg4 8 k_busy = Some (Inr k2)"
    by blast
  from busy lists_zeroed_k_busy run2 have z2: "lists_zeroed k2"
    by blast
  from busy run2 r k_busy_facts(1,2) len le
  have "read_sock (16, nat (8 - SOCKFD_OFFSET cfg4)) k2 = Some zero_socket"
    by blast
  then have rel: "read_sock (16, 0) k2 = Some zero_socket"
    by (simp add: cfg4_def)
  have before: "read_sock (16, 1) k_stale = Some \<lparr>s_crefs = 0, s_conn = 9\<rparr>"
    "read_sock (16, 0) k_busy = Some \<lparr>s_crefs = 1, s_conn = 5\<rparr>"
    by (simp_all add: read_sock_def k_stale_def k_busy_def k_task_def stale_list_def busy_list_def)
  from created have created': "heap (snd (net_alloclist cfg4 k_boot)) 16 =
       Some \<lparr>sl_crefs = 1, sl_sockets = replicate 4 zero_socket\<rparr>"
    by (simp add: cfg4_def)
  from lists_zeroed_k_boot created(1) created' z1 before run1 got lists_zeroed_k_busy run2 rel z2
  show ?thesis by blast
qed

subsection \<open>Interrupted waits\<close>

lemma acquires_after_last:
  "acquires_after n scr i \<Longrightarrow> scr (i + n) = SemOK"
proof (induction n arbitrary: i)
  case 0
  then show ?case by simp
next
  case (Suc n)
  from Suc.prems have "acquires_after n scr (Suc i)" by simp
  from Suc.IH [OF this] show ?case by simp
qed

lemma sockfd_allocate_dangling:
  assumes "task_sockets k = Some a" and "heap k a = None"
    and "acquires_after n (sem_script k) (sem_waits k)"
  shows "sockfd_allocate cfg k =
           (if 0 < CONFIG_NSOCKET_DESCRIPTORS cfg then Some (Inl BadPointer)
            else Some (Inr (ERROR, net_semgive a (semtaken a n k))))"
proof -
  have "read_sock (a, 0) (semtaken a n k) = None"
    using assms(2) by (simp add: read_sock_None)
  then show ?thesis
    by (simp add: sockfd_allocate_def sched_getsockets_def assms(1)
        net_semtake_acquires [OF assms(3)])
qed

lemma sockfd_release_dangling:
  assumes "0 \<le> sockfd - SOCKFD_OFFSET cfg"
    and "sockfd - SOCKFD_OFFSET cfg < int (CONFIG_NSOCKET_DESCRIPTORS cfg)"
    and "task_sockets k = Some a" and "heap k a = None"
    and "acquires_after n (sem_script k) (sem_waits k)"
  shows "sockfd_release cfg sockfd k = Some (Inl BadPointer)"
proof -
  have "read_sock (a, nat (sockfd - SOCKFD_OFFSET cfg)) (semtaken a n k) = None"
    using assms(4) by (simp add: read_sock_None)
  moreover have "sockfd_socket cfg sockfd k = (Some (a, nat (sockfd - SOCKFD_OFFSET cfg)), k)"
    using assms(1-3) by (simp add: sockfd_socket_def sched_getsockets_def)
  ultimately show ?thesis
    by (simp add: sockfd_release_def sched_getsockets_def assms(3)
        net_semtake_acquires [OF assms(5)])
qed

text \<open>The view of the caller does not depend on how often the wait was interrupted.\<close>

lemma alloc_view_interrupted:
  assumes "acquires_after n (sem_script k) (sem_waits k)"
    and "acquires_after n2 (sem_script k2) (sem_waits k2)"
    and "task_sockets k2 = task_sockets k" and "heap k2 = heap k"
  shows "alloc_view (sockfd_allocate cfg k) = alloc_view (sockfd_allocate cfg k2)
         \<and> alloc_view (sockfd_allocate cfg k) \<noteq> None
         \<and> alloc_view (sockfd_allocate cfg k) \<noteq> Some (Inl AssertFailed)"
proof (cases "task_sockets k")
  case None
  then show ?thesis
    using assms(3,4) by (simp add: sockfd_allocate_no_list alloc_view_def)
next
  case (Some a)
  then have a2: "task_sockets k2 = Some a" using assms(3) by simp
  show ?thesis
  proof (cases "heap k a")
    case None
    then have "heap k2 a = None" using assms(4) by simp
    then show ?thesis
      using assms(4)
      by (simp add: sockfd_allocate_dangling [OF Some None assms(1)]
          sockfd_allocate_dangling [OF a2 _ assms(2)] alloc_view_def)
  next
    case sl: (Some sl)
    then have sl2: "heap k2 a = Some sl" using assms(4) by simp
    show ?thesis
    proof (rule lowest_free_cases [of "CONFIG_NSOCKET_DESCRIPTORS cfg" "sl_sockets sl"], goal_cases)
      case 1
      then show ?case
        using assms(4)
        by (simp add: sockfd_allocate_full [OF Some sl assms(1)]
            sockfd_allocate_full [OF a2 sl2 assms(2)] alloc_view_def)
    next
      case (2 j)
      then show ?case
        using assms(4)
        by (simp add: sockfd_allocate_found [OF Some sl assms(1)]
            sockfd_allocate_found [OF a2 sl2 assms(2)] alloc_view_def
            heap_update_sock_semtaken [OF sl] heap_update_sock_semtaken [OF sl2])
    qed
  qed
qed

lemma release_view_interrupted:
  assumes "acquires_after n (sem_script k) (sem_waits k)"
    and "acquires_after n2 (sem_script k2) (sem_waits k2)"
    and "task_sockets k2 = task_sockets k" and "heap k2 = heap k"
  shows "release_view (sockfd_release cfg sockfd k) = release_view (sockfd_release cfg sockfd k2)
         \<and> release_view (sockfd_release cfg sockfd k) \<noteq> None
         \<and> release_view (sockfd_release cfg sockfd k) \<noteq> Some (Inl AssertFailed)"
proof (cases "sockfd - SOCKFD_OFFSET cfg < 0
      \<or> int (CONFIG_NSOCKET_DESCRIPTORS cfg) \<le> sockfd - SOCKFD_OFFSET cfg")
  case True
  then show ?thesis
    using assms(4) by (simp add: sockfd_release_out_of_range release_view_def)
next
  case False
  then have range: "0 \<le> sockfd - SOCKFD_OFFSET cfg"
      "sockfd - SOCKFD_OFFSET cfg < int (CONFIG_NSOCKET_DESCRIPTORS cfg)"
    by simp_all
  show ?thesis
  proof (cases "task_sockets k")
    case None
    then show ?thesis
      using assms(3,4) by (simp add: sockfd_release_no_list release_view_def)
  next
    case (Some a)
    then have a2: "task_sockets k2 = Some a" using assms(3) by simp
    show ?thesis
    proof (cases "heap k a")
      case None
      then have "heap k2 a = None" using assms(4) by simp
      then show ?thesis
        by (simp add: sockfd_release_dangling [OF range Some None assms(1)]
            sockfd_release_dangling [OF range a2 _ assms(2)] release_view_def)
    next
      case sl: (Some sl)
      then have sl2: "heap k2 a = Some sl" using assms(4) by simp
      show ?thesis
        using assms(4)
        by (simp add: sockfd_release_slot [OF range Some sl assms(1)]
            sockfd_release_slot [OF range a2 sl2 assms(2)] release_view_def
            heap_update_sock_semtaken [OF sl] heap_update_sock_semtaken [OF sl2])
    qed
  qed
qed

text \<open>
  C9. When the waits of \<^verbatim>\<open>_net_semtake\<close> are interrupted by a signal \<open>n\<close> times
  (\<^verbatim>\<open>sem_wait\<close> returns nonzero with \<^verbatim>\<open>errno\<close> \<^verbatim>\<open>EINTR\<close>) and the next wait takes the
  semaphore, the loop calls \<^verbatim>\<open>sem_wait\<close> exactly \<open>n + 1\<close> times and returns with the
  semaphore taken and the socket lists untouched. \<^verbatim>\<open>sockfd_allocate\<close> and
  \<^verbatim>\<open>sockfd_release\<close> then return, without an assertion failure, and leave the caller
  with the same result and the same socket lists as the run whose first wait takes the
  semaphore at once.
\<close>

theorem net_semtake_retries:
  assumes "acquires_after n (sem_script k) (sem_waits k)"
  shows "(\<exists>k1. net_semtake a k = Some (Inr k1)
            \<and> heap k1 = heap k \<and> task_sockets k1 = task_sockets k \<and> mem_pool k1 = mem_pool k
            \<and> sem_waits k1 = sem_waits k + Suc n
            \<and> calls k1 = calls k @ replicate (Suc n) (SEM_WAIT a))
     \<and> alloc_view (sockfd_allocate cfg k) =
         alloc_view (sockfd_allocate cfg (k\<lparr>sem_waits := sem_waits k + n\<rparr>))
     \<and> alloc_view (sockfd_allocate cfg k) \<noteq> None
     \<and> alloc_view (sockfd_allocate cfg k) \<noteq> Some (Inl AssertFailed)
     \<and> release_view (sockfd_release cfg sockfd k) =
         release_view (sockfd_release cfg sockfd (k\<lparr>sem_waits := sem_waits k + n\<rparr>))
     \<and> release_view (sockfd_release cfg sockfd k) \<noteq> None
     \<and> release_view (sockfd_release cfg sockfd k) \<noteq> Some (Inl AssertFailed)"
proof -
  define k0 where "k0 = k\<lparr>sem_waits := sem_waits k + n\<rparr>"
  have k0: "acquires_after 0 (sem_script k0) (sem_waits k0)"
    "task_sockets k0 = task_sockets k" "heap k0 = heap k"
    using acquires_after_last [OF assms] by (simp_all add: k0_def)
  have "\<exists>k1. net_semtake a k = Some (Inr k1)
            \<and> heap k1 = heap k \<and> task_sockets k1 = task_sockets k \<and> mem_pool k1 = mem_pool k
            \<and> sem_waits k1 = sem_waits k + Suc n
            \<and> calls k1 = calls k @ replicate (Suc n) (SEM_WAIT a)"
    by (simp add: net_semtake_acquires [OF assms])
  with alloc_view_interrupted [OF assms k0, of cfg]
    release_view_interrupted [OF assms k0, of cfg sockfd]
  show ?thesis
    unfolding k0_def by blast
qed

theorem net_semtake_retries_witness:
  "acquires_after (Suc (Suc 0)) (sem_script k_signalled) (sem_waits k_signalled)
   \<and> (\<exists>k1. net_semtake 16 k_signalled = Some (Inr k1) \<and> heap k1 = heap k_signalled
          \<and> calls k1 = [SEM_WAIT 16, SEM_WAIT 16, SEM_WAIT 16])
   \<and> alloc_view (sockfd_allocate cfg4 k_signalled) =
       alloc_view (sockfd_allocate cfg4 (k_signalled\<lparr>sem_waits := Suc (Suc 0)\<rparr>))
   \<and> release_view (sockfd_release cfg4 9 k_signalled) =
       release_view (sockfd_release cfg4 9 (k_signalled\<lparr>sem_waits := Suc (Suc 0)\<rparr>))"
proof -
  have pre: "acquires_after (Suc (Suc 0)) (sem_script k_signalled) (sem_waits k_signalled)"
    and k: "sem_waits k_signalled = 0" "calls k_signalled = []"
    by (simp_all add: k_signalled_def k_busy_def k_task_def twice_interrupted_def)
  from net_semtake_retries [OF pre, of 16 cfg4 9]
  have "(\<exists>k1. net_semtake 16 k_signalled = Some (Inr k1) \<and> heap k1 = heap k_signalled
          \<and> calls k1 = [SEM_WAIT 16, SEM_WAIT 16, SEM_WAIT 16])"
    and "alloc_view (sockfd_allocate cfg4 k_signalled) =
       alloc_view (sockfd_allocate cfg4 (k_signalled\<lparr>sem_waits := Suc (Suc 0)\<rparr>))"
    and "release_view (sockfd_release cfg4 9 k_signalled) =
       release_view (sockfd_release cfg4 9 (k_signalled\<lparr>sem_waits := Suc (Suc 0)\<rparr>))"
    by (auto simp: k)
  with pre show ?thesis
    by blast
qed

subsection \<open>Sequences of allocations and releases\<close>

lemma table_okD:
  assumes "table_ok cfg a k"
  obtains sl where "task_sockets k = Some a" and "heap k a = Some sl"
    and "length (sl_sockets sl) = CONFIG_NSOCKET_DESCRIPTORS cfg"
  using assms by (auto simp: table_ok_def split: option.splits)

lemma table_okI:
  "task_sockets k = Some a \<Longrightarrow> heap k a = Some sl \<Longrightarrow>
   length (sl_sockets sl) = CONFIG_NSOCKET_DESCRIPTORS cfg \<Longrightarrow> table_ok cfg a k"
  by (simp add: table_ok_def)

text \<open>The effect of one call on the list of the task.\<close>

lemma sockfd_allocate_step:
  assumes "table_ok cfg a k" and "sockfd_allocate cfg k = Some (Inr (fd, k'))"
  obtains (failed) "fd = ERROR" and "heap k' = heap k" and "task_sockets k' = task_sockets k"
  | (taken) sl j where "heap k a = Some sl" and "j < CONFIG_NSOCKET_DESCRIPTORS cfg"
      and "s_crefs (sl_sockets sl ! j) = 0" and "fd = int j + SOCKFD_OFFSET cfg"
      and "heap k' = (heap k)(a \<mapsto>
             sl\<lparr>sl_sockets := (sl_sockets sl)[j := zero_socket\<lparr>s_crefs := 1\<rparr>]\<rparr>)"
      and "task_sockets k' = task_sockets k"
  using assms(2)
proof (cases rule: sockfd_allocate_cases)
  case no_list
  then show ?thesis by (intro failed) simp_all
next
  case (dangling b n)
  then show ?thesis by (intro failed) simp_all
next
  case (full b sl n)
  then show ?thesis by (intro failed) simp_all
next
  case (found b sl n j)
  from assms(1) found(1) have "b = a"
    by (simp add: table_ok_def)
  with found show ?thesis
    by (intro taken [of sl j]) (simp_all add: heap_update_sock_semtaken)
qed

lemma sockfd_release_step:
  assumes "table_ok cfg a k" and "sockfd_release cfg fd k = Some (Inr k')"
  obtains (noop) "heap k' = heap k" and "task_sockets k' = task_sockets k"
  | (slot) sl where "heap k a = Some sl" and "0 \<le> fd - SOCKFD_OFFSET cfg"
      and "heap k' = (heap k)(a \<mapsto> sl\<lparr>sl_sockets := (sl_sockets sl)
             [nat (fd - SOCKFD_OFFSET cfg) :=
                release_slot (sl_sockets sl ! nat (fd - SOCKFD_OFFSET cfg))]\<rparr>)"
      and "task_sockets k' = task_sockets k"
  using assms(2)
proof (cases rule: sockfd_release_cases)
  case noop
  then show ?thesis by (intro that(1)) simp_all
next
  case (slot b sl n)
  from assms(1) slot(3) have "b = a"
    by (simp add: table_ok_def)
  with slot show ?thesis
    by (intro that(2) [of sl]) (simp_all add: heap_update_sock_semtaken)
qed

lemma run_op_table_ok:
  assumes "table_ok cfg a k" and "run_op cfg x k = Some (Inr (e, k'))"
  shows "table_ok cfg a k'"
proof -
  from assms(1) obtain sl0 where t: "task_sockets k = Some a" and h: "heap k a = Some sl0"
    and len: "length (sl_sockets sl0) = CONFIG_NSOCKET_DESCRIPTORS cfg"
    by (rule table_okD)
  show ?thesis
  proof (cases x)
    case Allocate
    with assms(2) obtain fd where "sockfd_allocate cfg k = Some (Inr (fd, k'))"
      by (auto split: option.splits sum.splits)
    with assms(1) show ?thesis
    proof (cases rule: sockfd_allocate_step)
      case failed
      with t h len show ?thesis by (simp add: table_ok_def)
    next
      case (taken sl j)
      with t h len show ?thesis by (simp add: table_ok_def)
    qed
  next
    case (Release fd)
    with assms(2) have "sockfd_release cfg fd k = Some (Inr k')"
      by (auto split: option.splits sum.splits)
    with assms(1) show ?thesis
    proof (cases rule: sockfd_release_step)
      case noop
      with t h len show ?thesis by (simp add: table_ok_def)
    next
      case (slot sl)
      with t h len show ?thesis by (simp add: table_ok_def)
    qed
  qed
qed

text \<open>A successful allocation takes a slot that was free and leaves it in use.\<close>

lemma run_op_allocated:
  assumes "table_ok cfg a k" and "run_op cfg x k = Some (Inr (Allocated fd, k'))"
    and "fd \<noteq> ERROR"
  shows "0 \<le> fd - SOCKFD_OFFSET cfg \<and> nat (fd - SOCKFD_OFFSET cfg) < CONFIG_NSOCKET_DESCRIPTORS cfg
         \<and> crefs_at a (nat (fd - SOCKFD_OFFSET cfg)) k = 0
         \<and> crefs_at a (nat (fd - SOCKFD_OFFSET cfg)) k' \<noteq> 0"
proof -
  from assms(1) obtain sl0 where h: "heap k a = Some sl0"
    and len: "length (sl_sockets sl0) = CONFIG_NSOCKET_DESCRIPTORS cfg"
    by (rule table_okD)
  from assms(2) have "sockfd_allocate cfg k = Some (Inr (fd, k'))"
    by (cases x) (auto split: option.splits sum.splits)
  with assms(1) show ?thesis
  proof (cases rule: sockfd_allocate_step)
    case failed
    with assms(3) show ?thesis by simp
  next
    case (taken sl j)
    with h len show ?thesis
      by (simp add: crefs_at_def)
  qed
qed

text \<open>A slot in use stays in use until its descriptor is released.\<close>

lemma run_op_keeps_live:
  assumes "table_ok cfg a k" and "run_op cfg x k = Some (Inr (e, k'))"
    and "crefs_at a i k \<noteq> 0" and "e \<noteq> Released (int i + SOCKFD_OFFSET cfg)"
  shows "crefs_at a i k' \<noteq> 0"
proof (cases x)
  case Allocate
  with assms(2) obtain fd where "sockfd_allocate cfg k = Some (Inr (fd, k'))"
    by (auto split: option.splits sum.splits)
  with assms(1) show ?thesis
  proof (cases rule: sockfd_allocate_step)
    case failed
    with assms(3) show ?thesis by (simp add: crefs_at_def)
  next
    case (taken sl j)
    with assms(3) have "j \<noteq> i" by (auto simp: crefs_at_def)
    with taken assms(3) show ?thesis by (simp add: crefs_at_def)
  qed
next
  case (Release fd)
  with assms(2) have run: "sockfd_release cfg fd k = Some (Inr k')" and e: "e = Released fd"
    by (auto split: option.splits sum.splits)
  from assms(1) run show ?thesis
  proof (cases rule: sockfd_release_step)
    case noop
    with assms(3) show ?thesis by (simp add: crefs_at_def)
  next
    case (slot sl)
    from e assms(4) slot(2) have "nat (fd - SOCKFD_OFFSET cfg) \<noteq> i" by auto
    with slot assms(3) show ?thesis by (simp add: crefs_at_def)
  qed
qed

lemma run_ops_table_ok:
  "table_ok cfg a k \<Longrightarrow> run_ops cfg xs k = Some (Inr (es, k')) \<Longrightarrow> table_ok cfg a k'"
proof (induction xs arbitrary: k es)
  case Nil
  then show ?case by simp
next
  case (Cons x xs)
  from Cons.prems(2) obtain e k1 es1 where 1: "run_op cfg x k = Some (Inr (e, k1))"
    and 2: "run_ops cfg xs k1 = Some (Inr (es1, k'))"
    by (auto split: option.splits sum.splits)
  from run_op_table_ok [OF Cons.prems(1) 1] 2 show ?case
    by (rule Cons.IH)
qed

lemma run_ops_keeps_live:
  assumes "table_ok cfg a k" and "run_ops cfg xs k = Some (Inr (es, k'))"
    and "crefs_at a i k \<noteq> 0" and "Released (int i + SOCKFD_OFFSET cfg) \<notin> set es"
  shows "crefs_at a i k' \<noteq> 0"
  using assms
proof (induction xs arbitrary: k es)
  case Nil
  then show ?case by simp
next
  case (Cons x xs)
  from Cons.prems(2) obtain e k1 es1 where 1: "run_op cfg x k = Some (Inr (e, k1))"
    and 2: "run_ops cfg xs k1 = Some (Inr (es1, k'))" and es: "es = e # es1"
    by (auto split: option.splits sum.splits)
  from Cons.prems(4) es have e: "e \<noteq> Released (int i + SOCKFD_OFFSET cfg)"
    and es1: "Released (int i + SOCKFD_OFFSET cfg) \<notin> set es1"
    by auto
  from run_op_table_ok [OF Cons.prems(1) 1] 2
    run_op_keeps_live [OF Cons.prems(1) 1 Cons.prems(3) e] es1
  show ?case by (rule Cons.IH)
qed

text \<open>A run that produced the events \<open>es1 @ es2\<close> is a run that produced \<open>es1\<close> followed
  by one that produced \<open>es2\<close>.\<close>

lemma run_ops_split:
  "run_ops cfg xs k = Some (Inr (es1 @ es2, k')) \<Longrightarrow>
   \<exists>xs1 xs2 k1. run_ops cfg xs1 k = Some (Inr (es1, k1))
     \<and> run_ops cfg xs2 k1 = Some (Inr (es2, k'))"
proof (induction xs arbitrary: k es1)
  case Nil
  then have "run_ops cfg [] k = Some (Inr (es1, k))" "run_ops cfg [] k = Some (Inr (es2, k'))"
    by simp_all
  then show ?case by blast
next
  case (Cons x xs)
  from Cons.prems obtain e km es' where 1: "run_op cfg x k = Some (Inr (e, km))"
    and 2: "run_ops cfg xs km = Some (Inr (es', k'))" and es: "es1 @ es2 = e # es'"
    by (auto split: option.splits sum.splits)
  show ?case
  proof (cases es1)
    case Nil
    with Cons.prems have "run_ops cfg [] k = Some (Inr (es1, k))"
      "run_ops cfg (x # xs) k = Some (Inr (es2, k'))"
      by simp_all
    then show ?thesis by blast
  next
    case (Cons e1 es1')
    with es have "e1 = e" "es' = es1' @ es2" by simp_all
    with 2 Cons.IH [of km es1'] obtain xs1 xs2 k1
      where "run_ops cfg xs1 km = Some (Inr (es1', k1))"
        and 3: "run_ops cfg xs2 k1 = Some (Inr (es2, k'))"
      by blast
    with 1 Cons \<open>e1 = e\<close> have "run_ops cfg (x # xs1) k = Some (Inr (es1, k1))"
      by simp
    with 3 show ?thesis by blast
  qed
qed

lemma run_ops_first:
  assumes "run_ops cfg xs k = Some (Inr (e # es, k'))"
  obtains x xs' k1 where "run_op cfg x k = Some (Inr (e, k1))"
    and "run_ops cfg xs' k1 = Some (Inr (es, k'))"
proof (cases xs)
  case Nil
  with assms show ?thesis by simp
next
  case (Cons x xs')
  with assms obtain k1 where "run_op cfg x k = Some (Inr (e, k1))"
    and "run_ops cfg xs' k1 = Some (Inr (es, k'))"
    by (auto split: option.splits sum.splits)
  then show ?thesis by (rule that)
qed

text \<open>
  C1. Take any sequence of \<^verbatim>\<open>sockfd_allocate\<close> and \<^verbatim>\<open>sockfd_release\<close> calls on the socket
  list of a task, a list of \<^verbatim>\<open>CONFIG_NSOCKET_DESCRIPTORS\<close> slots. After the sequence the
  list still has that many slots, so the number of slots with a nonzero reference count
  is at most the capacity of the table. And whenever two allocations of the sequence
  return the same descriptor, that descriptor was released between them: no two
  allocations that are live at the same time have the same descriptor.
\<close>

theorem descriptors_exclusive:
  assumes "table_ok cfg a k" and "run_ops cfg ops k = Some (Inr (es, k'))"
  shows "(\<exists>sl'. sched_getsockets k' = Some a \<and> heap k' a = Some sl'
            \<and> length (sl_sockets sl') = CONFIG_NSOCKET_DESCRIPTORS cfg
            \<and> length (filter (\<lambda>s. s_crefs s \<noteq> 0) (sl_sockets sl'))
                  \<le> CONFIG_NSOCKET_DESCRIPTORS cfg)
     \<and> (\<forall>es1 es2 es3 fd.
            es = es1 @ Allocated fd # es2 @ Allocated fd # es3 \<and> fd \<noteq> ERROR \<longrightarrow>
              Released fd \<in> set es2)"
proof (intro conjI allI impI)
  from run_ops_table_ok [OF assms] obtain sl' where "task_sockets k' = Some a"
    and "heap k' a = Some sl'"
    and len: "length (sl_sockets sl') = CONFIG_NSOCKET_DESCRIPTORS cfg"
    by (rule table_okD)
  moreover have "length (filter (\<lambda>s. s_crefs s \<noteq> 0) (sl_sockets sl')) \<le> length (sl_sockets sl')"
    by (rule length_filter_le)
  ultimately show "\<exists>sl'. sched_getsockets k' = Some a \<and> heap k' a = Some sl'
            \<and> length (sl_sockets sl') = CONFIG_NSOCKET_DESCRIPTORS cfg
            \<and> length (filter (\<lambda>s. s_crefs s \<noteq> 0) (sl_sockets sl'))
                  \<le> CONFIG_NSOCKET_DESCRIPTORS cfg"
    by (simp add: sched_getsockets_def)
next
  fix es1 es2 es3 fd
  assume "es = es1 @ Allocated fd # es2 @ Allocated fd # es3 \<and> fd \<noteq> ERROR"
  then have es: "es = es1 @ (Allocated fd # es2 @ Allocated fd # es3)" and ok: "fd \<noteq> ERROR"
    by simp_all
  define i where "i = nat (fd - SOCKFD_OFFSET cfg)"
  from assms(2) es run_ops_split [of cfg ops k es1 "Allocated fd # es2 @ Allocated fd # es3" k']
  obtain xs1 xsr k1 where r1: "run_ops cfg xs1 k = Some (Inr (es1, k1))"
    and rr: "run_ops cfg xsr k1 = Some (Inr (Allocated fd # es2 @ Allocated fd # es3, k'))"
    by blast
  from run_ops_table_ok [OF assms(1) r1] have t1: "table_ok cfg a k1" .
  from rr obtain x xsr' k2 where a1: "run_op cfg x k1 = Some (Inr (Allocated fd, k2))"
    and rr': "run_ops cfg xsr' k2 = Some (Inr (es2 @ Allocated fd # es3, k'))"
    by (rule run_ops_first)
  from run_op_table_ok [OF t1 a1] have t2: "table_ok cfg a k2" .
  from run_op_allocated [OF t1 a1 ok] have range: "0 \<le> fd - SOCKFD_OFFSET cfg"
    and live2: "crefs_at a i k2 \<noteq> 0"
    by (simp_all add: i_def)
  from range have fd: "int i + SOCKFD_OFFSET cfg = fd"
    by (simp add: i_def)
  from run_ops_split [OF rr'] obtain xs2 xs3 k3
    where r2: "run_ops cfg xs2 k2 = Some (Inr (es2, k3))"
      and r3: "run_ops cfg xs3 k3 = Some (Inr (Allocated fd # es3, k'))"
    by blast
  from run_ops_table_ok [OF t2 r2] have t3: "table_ok cfg a k3" .
  from r3 obtain y xs3' k4 where a2: "run_op cfg y k3 = Some (Inr (Allocated fd, k4))"
    by (rule run_ops_first)
  from run_op_allocated [OF t3 a2 ok] have free3: "crefs_at a i k3 = 0"
    by (simp add: i_def)
  show "Released fd \<in> set es2"
  proof (rule ccontr)
    assume "Released fd \<notin> set es2"
    then have "Released (int i + SOCKFD_OFFSET cfg) \<notin> set es2"
      by (simp add: fd)
    from run_ops_keeps_live [OF t2 r2 live2 this] free3 show False
      by simp
  qed
qed

lemma run_k_task:
  "\<exists>k'. run_ops cfg4 [Allocate, Allocate, Release 8, Allocate] k_task =
         Some (Inr ([Allocated 8, Allocated 9, Released 8, Allocated 8], k'))"
  by (simp add: sockfd_allocate_def sockfd_release_def sockfd_socket_def sched_getsockets_def
      net_semtake_acquires [where n = 0] semtaken_def net_semgive_def sem_post_def log_call_def
      read_sock_def update_sock_def k_task_def cfg4_def fresh_list_def zero_socket_def)

theorem descriptors_exclusive_witness:
  "table_ok cfg4 16 k_task
   \<and> (\<exists>k' sl'. run_ops cfg4 [Allocate, Allocate, Release 8, Allocate] k_task =
         Some (Inr ([Allocated 8, Allocated 9, Released 8, Allocated 8], k'))
       \<and> heap k' 16 = Some sl'
       \<and> length (filter (\<lambda>s. s_crefs s \<noteq> 0) (sl_sockets sl')) \<le> 4)
   \<and> Released 8 \<in> set [Allocated 9, Released 8]"
proof -
  have t: "table_ok cfg4 16 k_task"
    by (simp add: table_ok_def k_task_def fresh_list_def cfg4_def)
  from run_k_task obtain k' where
    run: "run_ops cfg4 [Allocate, Allocate, Release 8, Allocate] k_task =
         Some (Inr ([Allocated 8, Allocated 9, Released 8, Allocated 8], k'))"
    by blast
  note d = descriptors_exclusive [OF t run]
  from d obtain sl' where "heap k' 16 = Some sl'"
    and "length (filter (\<lambda>s. s_crefs s \<noteq> 0) (sl_sockets sl')) \<le> CONFIG_NSOCKET_DESCRIPTORS cfg4"
    by blast
  then have "heap k' 16 = Some sl'
       \<and> length (filter (\<lambda>s. s_crefs s \<noteq> 0) (sl_sockets sl')) \<le> 4"
    by (simp add: cfg4_def)
  moreover have "[Allocated 8, Allocated 9, Released 8, Allocated 8] =
      [] @ Allocated 8 # [Allocated 9, Released 8] @ Allocated 8 # [] \<and> 8 \<noteq> ERROR"
    by (simp add: ERROR_def)
  with d have "Released 8 \<in> set [Allocated 9, Released 8]"
    by blast
  ultimately show ?thesis using t run by blast
qed

end
